(* ===== verification/Prelude.thy ===== *)
theory Prelude
  imports Complex_Main "HOL-Library.Multiset"
begin

text \<open>
  Shared vocabulary of the development: the types that name DOM nodes and
  class tokens, the ordered-set append that both \<open>DOMTokenList.add\<close> and
  \<open>IntersectionObserver.observe\<close> perform (append unless already present),
  and the list, map and fold lemmas the component theories use.  The
  collection \<open>page_simps\<close> gathers the equations that unfold one page
  operation; component proofs say \<open>simp add: page_simps\<close>.
\<close>

named_theorems page_simps "equations unfolding the page-level operations"

type_synonym node_id = nat
type_synonym token = string

text \<open>Append \<open>x\<close> unless it is already a member: the "ordered set" append of
  the DOM and Web IDL specifications.\<close>

definition ordset_append :: "'a \<Rightarrow> 'a list \<Rightarrow> 'a list" where
  "ordset_append x xs = (if x \<in> set xs then xs else xs @ [x])"

lemma set_ordset_append [simp]: "set (ordset_append x xs) = insert x (set xs)"
  by (auto simp: ordset_append_def)

lemma distinct_ordset_append [simp]: "distinct (ordset_append x xs) = distinct xs"
  by (auto simp: ordset_append_def)

lemma ordset_append_member [simp]: "x \<in> set xs \<Longrightarrow> ordset_append x xs = xs"
  by (simp add: ordset_append_def)

lemma ordset_append_idem [simp]:
  "ordset_append x (ordset_append x xs) = ordset_append x xs"
  by simp

lemma ordset_append_prefix: "\<exists>ys. ordset_append x xs = xs @ ys"
  by (auto simp: ordset_append_def)

lemma removeAll_ordset_append [simp]:
  "removeAll x (ordset_append x xs) = removeAll x xs"
  by (simp add: ordset_append_def)

lemma set_fold_ordset_append [simp]:
  "set (fold ordset_append ys xs) = set xs \<union> set ys"
  by (induction ys arbitrary: xs) auto

lemma distinct_fold_ordset_append [simp]:
  "distinct (fold ordset_append ys xs) = distinct xs"
  by (induction ys arbitrary: xs) auto

lemma fold_ordset_append_prefix: "\<exists>zs. fold ordset_append ys xs = xs @ zs"
proof (induction ys arbitrary: xs)
  case Nil
  then show ?case by simp
next
  case (Cons y ys)
  obtain us where "ordset_append y xs = xs @ us"
    using ordset_append_prefix [of y xs] by blast
  moreover obtain vs where "fold ordset_append ys (xs @ us) = xs @ us @ vs"
    using Cons.IH [of "xs @ us"] by auto
  ultimately show ?case by auto
qed

text \<open>In a duplicate-free list every member occurs exactly once.\<close>

lemma count_list_distinct:
  "distinct xs \<Longrightarrow> count_list xs x = (if x \<in> set xs then 1 else 0)"
  by (induction xs) auto

lemma count_list_removeAll_same [simp]: "count_list (removeAll x xs) x = 0"
  by (simp add: count_list_0_iff)

text \<open>Updating a partial map through \<open>map_option\<close>: the domain is kept.\<close>

lemma dom_map_option_upd [simp]:
  "dom (m(k := map_option f (m k))) = dom m"
  by (auto split: option.splits)

end
