(* ===== verification/Geometry.thy ===== *)
theory Geometry
  imports Prelude
begin

text \<open>
  The geometry the browser computes for an \<open>IntersectionObserver\<close>
  (W3C Intersection Observer, "run the update intersection observations
  steps"): rectangles in CSS pixels, the root margin that grows or shrinks
  the root's box, the intersection rectangle, the intersection ratio and the
  threshold index.  This is the platform the script relies on, not code of
  the repository.  Two readings of \<open>isIntersecting\<close> are given: the
  browsers' (Blink's \<open>IntersectionGeometry::IsIntersecting\<close>: the threshold
  index is positive) and the literal W3C text (the rectangles touch).
  Pixels are integers; the ratio is an exact rational.
\<close>

record rect =
  rect_left :: int
  rect_top :: int
  rect_width :: int
  rect_height :: int

definition rect_right :: "rect \<Rightarrow> int" where
  "rect_right r = rect_left r + rect_width r"

definition rect_bottom :: "rect \<Rightarrow> int" where
  "rect_bottom r = rect_top r + rect_height r"

definition rect_area :: "rect \<Rightarrow> int" where
  "rect_area r = rect_width r * rect_height r"

definition wf_rect :: "rect \<Rightarrow> bool" where
  "wf_rect r \<longleftrightarrow> 0 \<le> rect_width r \<and> 0 \<le> rect_height r"

text \<open>\<open>rootMargin\<close> in the CSS order top, right, bottom, left; a positive
  value moves that edge outwards.\<close>

record margin =
  margin_top :: int
  margin_right :: int
  margin_bottom :: int
  margin_left :: int

definition apply_margin :: "margin \<Rightarrow> rect \<Rightarrow> rect" where
  "apply_margin m r =
     \<lparr>rect_left = rect_left r - margin_left m,
      rect_top = rect_top r - margin_top m,
      rect_width = rect_width r + margin_left m + margin_right m,
      rect_height = rect_height r + margin_top m + margin_bottom m\<rparr>"

text \<open>The intersection of two boxes; \<open>None\<close> when they neither overlap nor
  touch (edge-adjacent boxes intersect with zero area).\<close>

definition intersect_rect :: "rect \<Rightarrow> rect \<Rightarrow> rect option" where
  "intersect_rect a b =
     (let l = max (rect_left a) (rect_left b);
          t = max (rect_top a) (rect_top b);
          r = min (rect_right a) (rect_right b);
          bo = min (rect_bottom a) (rect_bottom b)
      in if l \<le> r \<and> t \<le> bo
         then Some \<lparr>rect_left = l, rect_top = t, rect_width = r - l, rect_height = bo - t\<rparr>
         else None)"

text \<open>\<open>intersectionRatio\<close>: intersection area over target area, and for a
  target of zero area 1 if it intersects, else 0.\<close>

definition intersection_ratio :: "rect \<Rightarrow> rect \<Rightarrow> rat" where
  "intersection_ratio target rb =
     (case intersect_rect target rb of
        None \<Rightarrow> 0
      | Some i \<Rightarrow> if rect_area target = 0 then 1
                  else of_int (rect_area i) / of_int (rect_area target))"

text \<open>Index of the first threshold greater than the ratio, or the number of
  thresholds (the thresholds are sorted ascending).\<close>

definition threshold_index :: "rat list \<Rightarrow> rat \<Rightarrow> nat" where
  "threshold_index ths r = length (takeWhile (\<lambda>t. t \<le> r) ths)"

text \<open>What the browser records for one target: its threshold index and its
  \<open>isIntersecting\<close> flag.  Blink: a target that does not touch the root has
  index 0; it is intersecting when the index is positive.\<close>

definition blink_observation :: "rat list \<Rightarrow> rect \<Rightarrow> rect \<Rightarrow> nat \<times> bool" where
  "blink_observation ths target rb =
     (case intersect_rect target rb of
        None \<Rightarrow> (0, False)
      | Some _ \<Rightarrow> (let k = threshold_index ths (intersection_ratio target rb) in (k, 0 < k)))"

text \<open>The literal W3C text (step 12): intersecting when the boxes touch,
  whatever the ratio.\<close>

definition w3c_observation :: "rat list \<Rightarrow> rect \<Rightarrow> rect \<Rightarrow> nat \<times> bool" where
  "w3c_observation ths target rb =
     (threshold_index ths (intersection_ratio target rb), intersect_rect target rb \<noteq> None)"

subsection \<open>Lemmas\<close>

lemma intersect_rect_width_le:
  "intersect_rect a b = Some i \<Longrightarrow> 0 \<le> rect_width i \<and> rect_width i \<le> rect_width a"
  by (auto simp: intersect_rect_def Let_def rect_right_def split: if_splits)

lemma intersect_rect_height_le:
  "intersect_rect a b = Some i \<Longrightarrow> 0 \<le> rect_height i \<and> rect_height i \<le> rect_height a"
  by (auto simp: intersect_rect_def Let_def rect_bottom_def split: if_splits)

lemma intersect_rect_area_le:
  assumes "intersect_rect a b = Some i"
  shows "0 \<le> rect_area i \<and> rect_area i \<le> rect_area a"
proof -
  from intersect_rect_width_le [OF assms] intersect_rect_height_le [OF assms]
  have "0 \<le> rect_width i" "rect_width i \<le> rect_width a"
       "0 \<le> rect_height i" "rect_height i \<le> rect_height a" by auto
  then show ?thesis
    by (simp add: rect_area_def mult_mono)
qed

lemma threshold_index_single [simp]:
  "threshold_index [t] r = (if t \<le> r then 1 else 0)"
  by (simp add: threshold_index_def)

lemma threshold_index_le: "threshold_index ths r \<le> length ths"
  by (simp add: threshold_index_def length_takeWhile_le)

text \<open>With one threshold, Blink's \<open>isIntersecting\<close> is "the boxes touch
  and the ratio reaches the threshold".\<close>

lemma blink_observation_single:
  "snd (blink_observation [t] target rb) \<longleftrightarrow>
     intersect_rect target rb \<noteq> None \<and> t \<le> intersection_ratio target rb"
  by (auto simp: blink_observation_def split: option.splits)

lemma blink_observation_index:
  "fst (blink_observation ths target rb) \<le> length ths"
  by (auto simp: blink_observation_def threshold_index_le Let_def split: option.splits)

end
