(* ===== verification/Dom.thy ===== *)
theory Dom
  imports Geometry
begin

text \<open>
  The part of the DOM the script touches: an element with its attributes,
  its class list (a \<open>DOMTokenList\<close>, an ordered set of tokens) and its
  layout box; the \<open>classList.add\<close> operation with the exceptions the DOM
  standard specifies for bad tokens; the two selector forms the script passes
  to \<open>querySelectorAll\<close> (an attribute-presence selector \<open>[name]\<close> and a
  class selector \<open>.name\<close>) with a parser and printer for them; and the
  document's \<open>readyState\<close>.  Browser platform, modelled from the DOM and
  Selectors standards.
\<close>

record element =
  attrs :: "(string \<times> string) list"
  class_list :: "token list"
  box :: rect

datatype ready_state = Loading | Interactive | Complete

text \<open>DOM exceptions raised by \<open>DOMTokenList\<close> methods.\<close>

datatype dom_error = SyntaxError | InvalidCharacterError

definition is_ascii_whitespace :: "char \<Rightarrow> bool" where
  "is_ascii_whitespace ch \<longleftrightarrow> of_char ch \<in> {9, 10, 12, 13, 32 :: nat}"

text \<open>DOM standard, "validation steps" of a token: the empty string throws
  \<open>SyntaxError\<close>, a token containing ASCII whitespace throws
  \<open>InvalidCharacterError\<close>.\<close>

definition validate_token :: "token \<Rightarrow> dom_error option" where
  "validate_token c =
     (if c = [] then Some SyntaxError
      else if list_ex is_ascii_whitespace c then Some InvalidCharacterError
      else None)"

text \<open>\<open>classList.add(c)\<close>: validate, then append to the token set unless
  present.  The result is the exception thrown, if any, and the element.\<close>

definition class_list_add :: "token \<Rightarrow> element \<Rightarrow> dom_error option \<times> element" where
  "class_list_add c el =
     (case validate_token c of
        Some err \<Rightarrow> (Some err, el)
      | None \<Rightarrow> (None, el\<lparr>class_list := ordset_append c (class_list el)\<rparr>))"

definition wf_element :: "element \<Rightarrow> bool" where
  "wf_element el \<longleftrightarrow> distinct (class_list el) \<and> wf_rect (box el)"

subsection \<open>Selectors\<close>

datatype selector = Attr_sel string | Class_sel string

fun matches :: "selector \<Rightarrow> element \<Rightarrow> bool" where
  "matches (Attr_sel a) el \<longleftrightarrow> a \<in> set (map fst (attrs el))"
| "matches (Class_sel c) el \<longleftrightarrow> c \<in> set (class_list el)"

text \<open>Identifiers of the fragment: non-empty, made of ASCII letters, digits,
  hyphen and underscore, not starting with a digit.\<close>

definition is_digit :: "char \<Rightarrow> bool" where
  "is_digit ch \<longleftrightarrow> (48 :: nat) \<le> of_char ch \<and> of_char ch \<le> (57 :: nat)"

definition is_ident_char :: "char \<Rightarrow> bool" where
  "is_ident_char ch \<longleftrightarrow>
     (let n = (of_char ch :: nat)
      in (97 \<le> n \<and> n \<le> 122) \<or> (65 \<le> n \<and> n \<le> 90) \<or> is_digit ch \<or> n = 45 \<or> n = 95)"

definition is_ident :: "string \<Rightarrow> bool" where
  "is_ident s \<longleftrightarrow> s \<noteq> [] \<and> list_all is_ident_char s \<and> \<not> is_digit (hd s)"

fun print_selector :: "selector \<Rightarrow> string" where
  "print_selector (Attr_sel a) = CHR ''['' # a @ '']''"
| "print_selector (Class_sel c) = CHR ''.'' # c"

text \<open>Parser of the fragment; \<open>None\<close> for any text outside it.\<close>

fun parse_selector :: "string \<Rightarrow> selector option" where
  "parse_selector (ch # rest) =
     (if ch = CHR ''['' \<and> rest \<noteq> [] \<and> last rest = CHR '']'' \<and> is_ident (butlast rest)
      then Some (Attr_sel (butlast rest))
      else if ch = CHR ''.'' \<and> is_ident rest then Some (Class_sel rest)
      else None)"
| "parse_selector [] = None"

definition wf_selector :: "selector \<Rightarrow> bool" where
  "wf_selector s \<longleftrightarrow> (case s of Attr_sel a \<Rightarrow> is_ident a | Class_sel c \<Rightarrow> is_ident c)"

subsection \<open>Lemmas\<close>

lemma ident_char_not_whitespace: "is_ident_char ch \<Longrightarrow> \<not> is_ascii_whitespace ch"
  by (auto simp: is_ident_char_def is_ascii_whitespace_def is_digit_def Let_def)

lemma validate_ident_token:
  assumes "is_ident c"
  shows "validate_token c = None"
  using assms ident_char_not_whitespace
  by (auto simp: validate_token_def is_ident_def list_ex_iff list_all_iff)

lemma class_list_add_valid:
  "validate_token c = None \<Longrightarrow>
     class_list_add c el = (None, el\<lparr>class_list := ordset_append c (class_list el)\<rparr>)"
  by (simp add: class_list_add_def)

lemma wf_class_list_add:
  "wf_element el \<Longrightarrow> wf_element (snd (class_list_add c el))"
  by (auto simp: class_list_add_def wf_element_def split: option.splits)

lemma class_list_add_box [simp]: "box (snd (class_list_add c el)) = box el"
  by (simp add: class_list_add_def split: option.splits)

lemma class_list_add_attrs [simp]: "attrs (snd (class_list_add c el)) = attrs el"
  by (simp add: class_list_add_def split: option.splits)

lemma class_list_add_mono:
  "set (class_list el) \<subseteq> set (class_list (snd (class_list_add c el)))"
  by (auto simp: class_list_add_def split: option.splits)

lemma matches_box_update [simp]: "matches s (el\<lparr>box := r\<rparr>) = matches s el"
  by (cases s) simp_all

lemma matches_class_grow:
  "matches s el \<Longrightarrow> set (class_list el) \<subseteq> set cs \<Longrightarrow> attrs el' = attrs el \<Longrightarrow>
     class_list el' = cs \<Longrightarrow> matches s el'"
  by (cases s) auto

lemma is_ident_not_bracket: "is_ident s \<Longrightarrow> CHR '']'' \<notin> set s"
  by (auto simp: is_ident_def list_all_iff is_ident_char_def is_digit_def)

text \<open>Round trips of the selector fragment: printing then parsing gives the
  selector back, and whatever parses prints back to the text it came from.\<close>

lemma parse_print_selector: "wf_selector s \<Longrightarrow> parse_selector (print_selector s) = Some s"
  by (cases s) (auto simp: wf_selector_def)

lemma print_parse_selector:
  "parse_selector str = Some s \<Longrightarrow> wf_selector s \<and> print_selector s = str"
proof (cases str)
  case Nil
  then show "parse_selector str = Some s \<Longrightarrow> ?thesis" by simp
next
  case (Cons ch rest)
  then show "parse_selector str = Some s \<Longrightarrow> ?thesis"
    by (auto simp: wf_selector_def split: if_splits) (metis append_butlast_last_id)
qed

end
