(* ===== verification/Observer.thy ===== *)
theory Observer
  imports Dom
begin

text \<open>
  The browser's \<open>IntersectionObserver\<close> object, after the W3C Intersection
  Observer specification: the constructor (which parses \<open>rootMargin\<close> and
  checks and sorts \<open>threshold\<close>, throwing on bad input), \<open>observe\<close> and
  \<open>unobserve\<close> on the \<open>[[ObservationTargets]]\<close> list, the per-target
  registration state (\<open>previousThresholdIndex\<close>, \<open>previousIsIntersecting\<close>),
  the queue of \<open>IntersectionObserverEntry\<close> records, and one run of the
  "update intersection observations" steps for this observer.  The way the
  browser decides \<open>isIntersecting\<close> is a parameter \<open>obsf\<close>
  (\<open>Geometry.blink_observation\<close> or \<open>Geometry.w3c_observation\<close>).
  Entries keep the fields the script reads (\<open>target\<close>,
  \<open>isIntersecting\<close>) and the ratio.
\<close>

subsection \<open>Parsing \<open>rootMargin\<close>\<close>

text \<open>The fragment of the CSS margin shorthand with pixel lengths: one to
  four space-separated \<open>[-]digits px\<close> values (percentages and other
  units are outside the fragment and give \<open>None\<close>).\<close>

fun split_words :: "string \<Rightarrow> string \<Rightarrow> string list" where
  "split_words cur [] = (if cur = [] then [] else [rev cur])"
| "split_words cur (ch # rest) =
     (if ch = CHR '' ''
      then (if cur = [] then split_words [] rest else rev cur # split_words [] rest)
      else split_words (ch # cur) rest)"

definition digits_val :: "string \<Rightarrow> nat option" where
  "digits_val s =
     (if s \<noteq> [] \<and> list_all is_digit s
      then Some (foldl (\<lambda>n ch. 10 * n + (of_char ch - 48)) 0 s) else None)"

definition parse_px :: "string \<Rightarrow> int option" where
  "parse_px s =
     (if 2 \<le> length s \<and> drop (length s - 2) s = ''px''
      then (case take (length s - 2) s of
              ch # ds \<Rightarrow> if ch = CHR ''-'' then map_option (\<lambda>n. - int n) (digits_val ds)
                        else map_option int (digits_val (ch # ds))
            | [] \<Rightarrow> None)
      else None)"

fun margin_of_list :: "int list \<Rightarrow> margin option" where
  "margin_of_list [a] = Some \<lparr>margin_top = a, margin_right = a, margin_bottom = a, margin_left = a\<rparr>"
| "margin_of_list [v, h] = Some \<lparr>margin_top = v, margin_right = h, margin_bottom = v, margin_left = h\<rparr>"
| "margin_of_list [t, h, b] = Some \<lparr>margin_top = t, margin_right = h, margin_bottom = b, margin_left = h\<rparr>"
| "margin_of_list [t, r, b, l] = Some \<lparr>margin_top = t, margin_right = r, margin_bottom = b, margin_left = l\<rparr>"
| "margin_of_list _ = None"

definition parse_root_margin :: "string \<Rightarrow> margin option" where
  "parse_root_margin s =
     (let ws = map parse_px (split_words [] s)
      in if list_all (\<lambda>w. w \<noteq> None) ws then margin_of_list (map the ws) else None)"

subsection \<open>The observer object\<close>

text \<open>Exceptions of the constructor: a \<open>rootMargin\<close> that does not parse
  (\<open>SyntaxError\<close>) and a threshold outside [0, 1] (\<open>RangeError\<close>).\<close>

datatype observer_error = Margin_SyntaxError | RangeError

record entry =
  target :: node_id
  is_intersecting :: bool
  entry_ratio :: rat

record observer =
  thresholds :: "rat list"
  root_margin :: margin
  targets :: "node_id list"
  prev :: "node_id \<rightharpoonup> int \<times> bool"
  queued :: "entry list"

definition create_observer :: "rat list \<Rightarrow> string \<Rightarrow> observer_error + observer" where
  "create_observer ths margin_text =
     (case parse_root_margin margin_text of
        None \<Rightarrow> Inl Margin_SyntaxError
      | Some m \<Rightarrow>
          if list_all (\<lambda>t. 0 \<le> t \<and> t \<le> 1) ths
          then Inr \<lparr>thresholds = (if ths = [] then [0] else sort ths), root_margin = m,
                    targets = [], prev = Map.empty, queued = []\<rparr>
          else Inl RangeError)"

text \<open>\<open>observe(t)\<close>: nothing if \<open>t\<close> is already a target; otherwise a
  registration with \<open>previousThresholdIndex = -1\<close> and
  \<open>previousIsIntersecting = false\<close>, and \<open>t\<close> appended to the targets.\<close>

definition observe :: "node_id \<Rightarrow> observer \<Rightarrow> observer" where
  "observe t ob =
     (if t \<in> set (targets ob) then ob
      else ob\<lparr>targets := targets ob @ [t], prev := (prev ob)(t \<mapsto> (-1, False))\<rparr>)"

text \<open>\<open>unobserve(t)\<close>: drop the registration and the target.  Entries
  already queued are not touched.\<close>

definition unobserve :: "node_id \<Rightarrow> observer \<Rightarrow> observer" where
  "unobserve t ob = ob\<lparr>targets := removeAll t (targets ob), prev := (prev ob)(t := None)\<rparr>"

text \<open>One target in one run of the update steps: compute the threshold
  index and \<open>isIntersecting\<close> against the margin-adjusted root box
  \<open>rb\<close>; queue an entry and record the new values when either differs
  from the previous ones.\<close>

definition update_target ::
  "(rat list \<Rightarrow> rect \<Rightarrow> rect \<Rightarrow> nat \<times> bool) \<Rightarrow> rect \<Rightarrow> (node_id \<rightharpoonup> rect) \<Rightarrow>
   node_id \<Rightarrow> observer \<Rightarrow> observer" where
  "update_target obsf rb boxes t ob =
     (case (boxes t, prev ob t) of
        (Some r, Some (pk, pisect)) \<Rightarrow>
          (let (k, isect) = obsf (thresholds ob) r rb
           in if int k \<noteq> pk \<or> isect \<noteq> pisect
              then ob\<lparr>queued := queued ob @
                        [\<lparr>target = t, is_intersecting = isect, entry_ratio = intersection_ratio r rb\<rparr>],
                      prev := (prev ob)(t \<mapsto> (int k, isect))\<rparr>
              else ob)
      | _ \<Rightarrow> ob)"

definition update_observations ::
  "(rat list \<Rightarrow> rect \<Rightarrow> rect \<Rightarrow> nat \<times> bool) \<Rightarrow> rect \<Rightarrow> (node_id \<rightharpoonup> rect) \<Rightarrow>
   observer \<Rightarrow> observer" where
  "update_observations obsf viewport boxes ob =
     fold (update_target obsf (apply_margin (root_margin ob) viewport) boxes) (targets ob) ob"

definition wf_observer :: "observer \<Rightarrow> bool" where
  "wf_observer ob \<longleftrightarrow> distinct (targets ob) \<and> dom (prev ob) = set (targets ob)"

text \<open>\<open>new\<close> holds only entries for targets in \<open>ts\<close> that are
  registered, each with the \<open>isIntersecting\<close> the browser computed from
  that target's box.\<close>

definition entries_for ::
  "(rat list \<Rightarrow> rect \<Rightarrow> rect \<Rightarrow> nat \<times> bool) \<Rightarrow> rect \<Rightarrow> (node_id \<rightharpoonup> rect) \<Rightarrow>
   observer \<Rightarrow> node_id set \<Rightarrow> entry list \<Rightarrow> bool" where
  "entries_for obsf rb boxes ob ts new \<longleftrightarrow>
     (\<forall>e \<in> set new. target e \<in> ts \<and> target e \<in> dom (prev ob) \<and>
        (\<exists>r. boxes (target e) = Some r \<and> is_intersecting e = snd (obsf (thresholds ob) r rb)))"

subsection \<open>Lemmas\<close>

lemma observe_simps [simp]:
  "targets (observe t ob) = ordset_append t (targets ob)"
  "queued (observe t ob) = queued ob"
  "thresholds (observe t ob) = thresholds ob"
  "root_margin (observe t ob) = root_margin ob"
  by (simp_all add: observe_def ordset_append_def)

lemma unobserve_simps [simp]:
  "targets (unobserve t ob) = removeAll t (targets ob)"
  "prev (unobserve t ob) = (prev ob)(t := None)"
  "queued (unobserve t ob) = queued ob"
  "thresholds (unobserve t ob) = thresholds ob"
  "root_margin (unobserve t ob) = root_margin ob"
  by (simp_all add: unobserve_def)

lemma wf_observe: "wf_observer ob \<Longrightarrow> wf_observer (observe t ob)"
  by (auto simp: wf_observer_def observe_def)

lemma wf_unobserve: "wf_observer ob \<Longrightarrow> wf_observer (unobserve t ob)"
  by (auto simp: wf_observer_def distinct_removeAll)

lemma unobserve_commute: "unobserve a (unobserve b ob) = unobserve b (unobserve a ob)"
  by (cases "a = b") (simp_all add: unobserve_def removeAll_commute fun_upd_twist)

lemma unobserve_idem: "unobserve a (unobserve a ob) = unobserve a ob"
  by (simp add: unobserve_def)

lemma prev_observe_fresh:
  "t \<notin> set (targets ob) \<Longrightarrow> prev (observe t ob) t = Some (-1, False)"
  by (simp add: observe_def)

lemma update_target_frame [simp]:
  "targets (update_target obsf rb boxes t ob) = targets ob"
  "thresholds (update_target obsf rb boxes t ob) = thresholds ob"
  "root_margin (update_target obsf rb boxes t ob) = root_margin ob"
  "dom (prev (update_target obsf rb boxes t ob)) = dom (prev ob)"
  by (auto simp: update_target_def split: option.splits prod.splits)

lemma update_target_queued:
  "\<exists>new. queued (update_target obsf rb boxes t ob) = queued ob @ new \<and>
          entries_for obsf rb boxes ob {t} new"
  by (auto simp: update_target_def entries_for_def split: option.splits prod.splits)

lemma fold_update_target_frame [simp]:
  "targets (fold (update_target obsf rb boxes) ts ob) = targets ob"
  "thresholds (fold (update_target obsf rb boxes) ts ob) = thresholds ob"
  "root_margin (fold (update_target obsf rb boxes) ts ob) = root_margin ob"
  "dom (prev (fold (update_target obsf rb boxes) ts ob)) = dom (prev ob)"
  by (induction ts arbitrary: ob) simp_all

lemma fold_update_target_queued:
  "\<exists>new. queued (fold (update_target obsf rb boxes) ts ob) = queued ob @ new \<and>
          entries_for obsf rb boxes ob (set ts) new"
proof (induction ts arbitrary: ob)
  case Nil
  then show ?case by (simp add: entries_for_def)
next
  case (Cons t ts)
  let ?ob1 = "update_target obsf rb boxes t ob"
  obtain new1 where n1: "queued ?ob1 = queued ob @ new1" "entries_for obsf rb boxes ob {t} new1"
    using update_target_queued by blast
  obtain new2 where n2: "queued (fold (update_target obsf rb boxes) ts ?ob1) = queued ?ob1 @ new2"
      "entries_for obsf rb boxes ?ob1 (set ts) new2"
    using Cons.IH by blast
  from n1 n2 show ?case
    by (rule_tac x = "new1 @ new2" in exI) (auto simp: entries_for_def)
qed

lemma wf_update_observations:
  "wf_observer ob \<Longrightarrow> wf_observer (update_observations obsf v boxes ob)"
  by (simp add: wf_observer_def update_observations_def)

lemma update_observations_frame [simp]:
  "targets (update_observations obsf v boxes ob) = targets ob"
  "thresholds (update_observations obsf v boxes ob) = thresholds ob"
  "root_margin (update_observations obsf v boxes ob) = root_margin ob"
  by (simp_all add: update_observations_def)

lemma update_observations_queued:
  "\<exists>new. queued (update_observations obsf v boxes ob) = queued ob @ new \<and>
     entries_for obsf (apply_margin (root_margin ob) v) boxes ob (set (targets ob)) new"
  unfolding update_observations_def by (rule fold_update_target_queued)

lemma create_observer_wf:
  "create_observer ths m = Inr ob \<Longrightarrow>
     wf_observer ob \<and> targets ob = [] \<and> queued ob = [] \<and> sorted (thresholds ob)"
  by (auto simp: create_observer_def wf_observer_def split: option.splits if_splits)

lemma fold_unobserve:
  "targets (fold unobserve ts ob) = filter (\<lambda>t. t \<notin> set ts) (targets ob)"
  "prev (fold unobserve ts ob) = prev ob |` (- set ts)"
  "queued (fold unobserve ts ob) = queued ob"
  "thresholds (fold unobserve ts ob) = thresholds ob"
  "root_margin (fold unobserve ts ob) = root_margin ob"
  by (induction ts arbitrary: ob) (auto simp: removeAll_filter_not_eq restrict_map_def fun_eq_iff intro!: filter_cong)


lemma fold_unobserve_eq:
  "fold unobserve ts ob = ob\<lparr>targets := filter (\<lambda>t. t \<notin> set ts) (targets ob),
                               prev := prev ob |` (- set ts)\<rparr>"
  by (simp add: fold_unobserve observer.equality)

lemma fold_unobserve_idem:
  "fold unobserve ts (fold unobserve ts ob) = fold unobserve ts ob"
  by (simp add: fold_unobserve_eq restrict_map_def fun_eq_iff)

lemma fold_observe:
  "targets (fold observe is ob) = fold ordset_append is (targets ob)"
  "queued (fold observe is ob) = queued ob"
  "thresholds (fold observe is ob) = thresholds ob"
  "root_margin (fold observe is ob) = root_margin ob"
  by (induction "is" arbitrary: ob) simp_all

lemma wf_fold_observe: "wf_observer ob \<Longrightarrow> wf_observer (fold observe is ob)"
  by (induction "is" arbitrary: ob) (simp_all add: wf_observe)

end
