(* ===== verification/Page.thy ===== *)
theory Page
  imports Observer
begin

text \<open>
  The state of one page as the script sees it: the element store (every
  element object, by node id), the document's elements in tree order, its
  \<open>readyState\<close>, the \<open>DOMContentLoaded\<close> listeners, the viewport, the
  script's \<open>observer\<close> variable (\<open>None\<close> until the constructor has run),
  and the "already started" flag of the script element.  Two fields record
  what an outside observer of the page can see: \<open>query_log\<close>, each
  \<open>querySelectorAll\<close> call with the \<open>readyState\<close> it ran in, and
  \<open>class_adds\<close>, the attribute mutation records that successful
  \<open>classList.add\<close> calls queue (the DOM's update steps rewrite the
  \<open>class\<close> attribute on every call, even when the token was present); only
  their number per element and token matters here, so they form a multiset.
  The page-level operations are the DOM methods the script calls.
\<close>

text \<open>Functions of the script that the browser can call back: the
  \<open>init\<close> function registered for \<open>DOMContentLoaded\<close>.\<close>

datatype script_fn = Fn_init

record page =
  store :: "node_id \<rightharpoonup> element"
  doc :: "node_id list"
  ready :: ready_state
  dcl_listeners :: "script_fn list"
  viewport :: rect
  io :: "observer option"
  script_started :: bool
  query_log :: "(selector \<times> ready_state) list"
  class_adds :: "(node_id \<times> token) multiset"

definition initial_page :: "rect \<Rightarrow> page" where
  "initial_page v =
     \<lparr>store = Map.empty, doc = [], ready = Loading, dcl_listeners = [], viewport = v,
      io = None, script_started = False, query_log = [], class_adds = {#}\<rparr>"

definition boxes :: "page \<Rightarrow> node_id \<rightharpoonup> rect" where
  "boxes p i = map_option box (store p i)"

definition has_class :: "token \<Rightarrow> node_id \<Rightarrow> page \<Rightarrow> bool" where
  "has_class c i p \<longleftrightarrow> (case store p i of Some el \<Rightarrow> c \<in> set (class_list el) | None \<Rightarrow> False)"

text \<open>\<open>document.querySelectorAll(sel)\<close>: the matching elements of the
  document in tree order (a static list), logged.\<close>

definition query_selector_all :: "selector \<Rightarrow> page \<Rightarrow> node_id list \<times> page" where
  "query_selector_all sel p =
     (filter (\<lambda>i. case store p i of Some el \<Rightarrow> matches sel el | None \<Rightarrow> False) (doc p),
      p\<lparr>query_log := query_log p @ [(sel, ready p)]\<rparr>)"

text \<open>\<open>el.classList.add(c)\<close> on the element with id \<open>i\<close>.\<close>

definition class_list_add_at :: "token \<Rightarrow> node_id \<Rightarrow> page \<Rightarrow> dom_error option \<times> page" where
  "class_list_add_at c i p =
     (case store p i of
        None \<Rightarrow> (None, p)
      | Some el \<Rightarrow>
          (case class_list_add c el of
             (Some err, _) \<Rightarrow> (Some err, p)
           | (None, el') \<Rightarrow>
               (None, p\<lparr>store := (store p)(i \<mapsto> el'), class_adds := class_adds p + {#(i, c)#}\<rparr>)))"

text \<open>\<open>observer.observe(i)\<close> and \<open>observer.unobserve(i)\<close> through the
  script's variable.\<close>

definition observer_observe :: "node_id \<Rightarrow> page \<Rightarrow> page" where
  "observer_observe i p = p\<lparr>io := map_option (observe i) (io p)\<rparr>"

definition observer_unobserve :: "node_id \<Rightarrow> page \<Rightarrow> page" where
  "observer_unobserve i p = p\<lparr>io := map_option (unobserve i) (io p)\<rparr>"

text \<open>\<open>document.addEventListener('DOMContentLoaded', f)\<close>: a listener
  already registered is not added twice.\<close>

definition add_dcl_listener :: "script_fn \<Rightarrow> page \<Rightarrow> page" where
  "add_dcl_listener f p = p\<lparr>dcl_listeners := ordset_append f (dcl_listeners p)\<rparr>"

text \<open>The targets the observer holds (none before it exists).\<close>

definition registered :: "page \<Rightarrow> node_id list" where
  "registered p = (case io p of Some ob \<Rightarrow> targets ob | None \<Rightarrow> [])"

subsection \<open>Lemmas\<close>

lemma query_selector_all_state [simp]:
  "store (snd (query_selector_all sel p)) = store p"
  "doc (snd (query_selector_all sel p)) = doc p"
  "ready (snd (query_selector_all sel p)) = ready p"
  "dcl_listeners (snd (query_selector_all sel p)) = dcl_listeners p"
  "viewport (snd (query_selector_all sel p)) = viewport p"
  "script_started (snd (query_selector_all sel p)) = script_started p"
  "io (snd (query_selector_all sel p)) = io p"
  "query_log (snd (query_selector_all sel p)) = query_log p @ [(sel, ready p)]"
  "class_adds (snd (query_selector_all sel p)) = class_adds p"
  by (simp_all add: query_selector_all_def)

lemma set_query_selector_all:
  "set (fst (query_selector_all sel p)) =
     {i \<in> set (doc p). \<exists>el. store p i = Some el \<and> matches sel el}"
  by (auto simp: query_selector_all_def split: option.splits)

lemma observer_observe_simps [simp]:
  "store (observer_observe i p) = store p"
  "doc (observer_observe i p) = doc p"
  "ready (observer_observe i p) = ready p"
  "dcl_listeners (observer_observe i p) = dcl_listeners p"
  "viewport (observer_observe i p) = viewport p"
  "script_started (observer_observe i p) = script_started p"
  "query_log (observer_observe i p) = query_log p"
  "class_adds (observer_observe i p) = class_adds p"
  "io (observer_observe i p) = map_option (observe i) (io p)"
  by (simp_all add: observer_observe_def)

lemma observer_unobserve_simps [simp]:
  "store (observer_unobserve i p) = store p"
  "doc (observer_unobserve i p) = doc p"
  "ready (observer_unobserve i p) = ready p"
  "dcl_listeners (observer_unobserve i p) = dcl_listeners p"
  "viewport (observer_unobserve i p) = viewport p"
  "script_started (observer_unobserve i p) = script_started p"
  "query_log (observer_unobserve i p) = query_log p"
  "class_adds (observer_unobserve i p) = class_adds p"
  "io (observer_unobserve i p) = map_option (unobserve i) (io p)"
  by (simp_all add: observer_unobserve_def)

text \<open>\<open>classList.add\<close> with a valid token on an existing element never
  throws; it adds the token to that element and queues one mutation record.\<close>

lemma class_list_add_at_valid:
  "validate_token c = None \<Longrightarrow> store p i = Some el \<Longrightarrow>
     class_list_add_at c i p =
       (None, p\<lparr>store := (store p)(i \<mapsto> el\<lparr>class_list := ordset_append c (class_list el)\<rparr>),
                class_adds := class_adds p + {#(i, c)#}\<rparr>)"
  by (simp add: class_list_add_at_def class_list_add_valid)

lemma class_list_add_at_missing [simp]:
  "store p i = None \<Longrightarrow> class_list_add_at c i p = (None, p)"
  by (simp add: class_list_add_at_def)

lemma class_list_add_at_frame [simp]:
  "doc (snd (class_list_add_at c i p)) = doc p"
  "ready (snd (class_list_add_at c i p)) = ready p"
  "dcl_listeners (snd (class_list_add_at c i p)) = dcl_listeners p"
  "viewport (snd (class_list_add_at c i p)) = viewport p"
  "script_started (snd (class_list_add_at c i p)) = script_started p"
  "io (snd (class_list_add_at c i p)) = io p"
  "query_log (snd (class_list_add_at c i p)) = query_log p"
  "dom (store (snd (class_list_add_at c i p))) = dom (store p)"
  by (auto simp: class_list_add_at_def split: option.splits prod.splits)

lemma has_class_class_list_add_at:
  "validate_token c = None \<Longrightarrow>
     has_class d j (snd (class_list_add_at c i p)) \<longleftrightarrow>
       has_class d j p \<or> (j = i \<and> d = c \<and> i \<in> dom (store p))"
  by (auto simp: class_list_add_at_def class_list_add_valid has_class_def split: option.splits)

lemma registered_observer_observe [simp]:
  "registered (observer_observe i p) =
     (case io p of Some ob \<Rightarrow> ordset_append i (targets ob) | None \<Rightarrow> [])"
  by (simp add: registered_def split: option.splits)

lemma registered_observer_unobserve [simp]:
  "registered (observer_unobserve i p) = removeAll i (registered p)"
  by (simp add: registered_def split: option.splits)

end
