(* ===== verification/Registry.thy ===== *)
theory Registry
  imports Observer
begin

text \<open>
  The abstract contract of the visibility watcher: a registry of watched
  elements and the set of elements shown (marked visible).  Registering adds
  candidates to the registry; a batch of intersection records moves every
  intersecting record's element from the registry to the shown set and
  ignores the others.  Sets carry no order, so the contract says that order
  within a batch does not matter.  \<open>Animations\<close> proves that the script
  implements this contract.
\<close>

record registry =
  watched :: "node_id set"
  shown :: "node_id set"

definition spec_register :: "node_id set \<Rightarrow> registry \<Rightarrow> registry" where
  "spec_register cs r = r\<lparr>watched := watched r \<union> cs\<rparr>"

definition spec_entry :: "entry \<Rightarrow> registry \<Rightarrow> registry" where
  "spec_entry e r =
     (if is_intersecting e
      then \<lparr>watched = watched r - {target e}, shown = insert (target e) (shown r)\<rparr>
      else r)"

definition spec_callback :: "entry list \<Rightarrow> registry \<Rightarrow> registry" where
  "spec_callback es r = fold spec_entry es r"

text \<open>The elements a batch reveals: the targets of its intersecting
  records.\<close>

abbreviation revealed_by :: "entry list \<Rightarrow> node_id list" where
  "revealed_by es \<equiv> map target (filter is_intersecting es)"

subsection \<open>Lemmas\<close>

lemma spec_callback_eq:
  "spec_callback es r =
     \<lparr>watched = watched r - set (revealed_by es), shown = shown r \<union> set (revealed_by es)\<rparr>"
proof (induction es arbitrary: r)
  case Nil
  then show ?case by (simp add: spec_callback_def)
next
  case (Cons e es)
  then show ?case
    by (auto simp: spec_callback_def spec_entry_def)
qed

lemma spec_callback_shown_mono: "shown r \<subseteq> shown (spec_callback es r)"
  by (simp add: spec_callback_eq)

lemma spec_callback_disjoint:
  "watched r \<inter> shown r = {} \<Longrightarrow>
     watched (spec_callback es r) \<inter> shown (spec_callback es r) = {}"
  by (auto simp: spec_callback_eq)

end
