(* ===== verification/Animations.thy ===== *)
theory Animations
  imports Page Registry
begin

text \<open>
  The script \<open>src/assets/js/animations.js\<close>, one definition per piece:
  the constants it passes to the platform (the marker class, the observer
  options, the two selector strings), the per-entry body of the observer
  callback and the callback's \<open>forEach\<close> over its batch, the two
  \<open>forEach(observer.observe)\<close> loops, \<open>init\<close>, and the top-level
  immediately-invoked function that builds the observer and runs \<open>init\<close>
  now or on \<open>DOMContentLoaded\<close>.  An exception aborts the rest of the
  function it is thrown in and leaves the mutations made before it; each
  operation returns the exception, if any, with the resulting page.
\<close>

subsection \<open>Constants of the script\<close>

definition visible_class :: token where
  "visible_class = ''is-visible''"

definition observer_thresholds :: "rat list" where
  "observer_thresholds = [15 / 100]"

definition observer_root_margin_text :: string where
  "observer_root_margin_text = ''0px 0px -40px 0px''"

definition data_animate_text :: string where
  "data_animate_text = ''[data-animate]''"

definition chart_wrap_text :: string where
  "chart_wrap_text = ''.svg-chart-wrap''"

text \<open>The selectors the two strings denote (the parse is proved below).\<close>

definition sel_data_animate :: selector where
  "sel_data_animate = Attr_sel ''data-animate''"

definition sel_chart_wrap :: selector where
  "sel_chart_wrap = Class_sel ''svg-chart-wrap''"

subsection \<open>The observer callback\<close>

text \<open>
  \<^verbatim>\<open>function (entry) {
      if (entry.isIntersecting) {
        entry.target.classList.add('is-visible');
        observer.unobserve(entry.target);
      }
    }\<close>
\<close>

definition callback_entry :: "entry \<Rightarrow> page \<Rightarrow> dom_error option \<times> page" where
  "callback_entry e p =
     (if is_intersecting e
      then (case class_list_add_at visible_class (target e) p of
              (Some err, p') \<Rightarrow> (Some err, p')
            | (None, p') \<Rightarrow> (None, observer_unobserve (target e) p'))
      else (None, p))"

text \<open>\<open>entries.forEach(...)\<close>: the entries in order; an exception stops the
  loop.\<close>

fun observer_callback :: "entry list \<Rightarrow> page \<Rightarrow> dom_error option \<times> page" where
  "observer_callback [] p = (None, p)"
| "observer_callback (e # es) p =
     (case callback_entry e p of
        (Some err, p') \<Rightarrow> (Some err, p')
      | (None, p') \<Rightarrow> observer_callback es p')"

subsection \<open>\<open>init\<close> and the top level\<close>

text \<open>\<open>xs.forEach(function (x) { observer.observe(x); })\<close>.\<close>

fun observe_each :: "node_id list \<Rightarrow> page \<Rightarrow> page" where
  "observe_each [] p = p"
| "observe_each (i # is) p = observe_each is (observer_observe i p)"

definition init :: "page \<Rightarrow> page" where
  "init p =
     (let (elements, p1) = query_selector_all sel_data_animate p;
          p2 = observe_each elements p1;
          (charts, p3) = query_selector_all sel_chart_wrap p2
      in observe_each charts p3)"

text \<open>The immediately-invoked function: construct the observer (the
  constructor may throw), then either register \<open>init\<close> for
  \<open>DOMContentLoaded\<close> while the document is loading, or call it.\<close>

definition script_main :: "page \<Rightarrow> observer_error option \<times> page" where
  "script_main p =
     (case create_observer observer_thresholds observer_root_margin_text of
        Inl err \<Rightarrow> (Some err, p)
      | Inr ob \<Rightarrow>
          (let p1 = p\<lparr>io := Some ob\<rparr>
           in (None, if ready p1 = Loading then add_dcl_listener Fn_init p1 else init p1)))"

subsection \<open>Auxiliary notions of the proofs\<close>

text \<open>What \<open>classList.add('is-visible')\<close> does to an element; the
  abstraction of a page to the registry of \<open>Registry\<close>; the elements
  \<open>init\<close> should register; and the observer the constructor builds from
  the script's options.\<close>

definition mark_visible :: "element \<Rightarrow> element" where
  "mark_visible el = el\<lparr>class_list := ordset_append visible_class (class_list el)\<rparr>"

definition abs_page :: "page \<Rightarrow> registry" where
  "abs_page p = \<lparr>watched = set (registered p), shown = {i. has_class visible_class i p}\<rparr>"

definition candidate :: "page \<Rightarrow> node_id \<Rightarrow> bool" where
  "candidate p i \<longleftrightarrow> i \<in> set (doc p) \<and>
     (case store p i of
        Some el \<Rightarrow> matches sel_data_animate el \<or> matches sel_chart_wrap el
      | None \<Rightarrow> False)"

abbreviation script_observer :: observer where
  "script_observer \<equiv>
     \<lparr>thresholds = [15 / 100],
      root_margin = \<lparr>margin_top = 0, margin_right = 0, margin_bottom = -40, margin_left = 0\<rparr>,
      targets = [], prev = Map.empty, queued = []\<rparr>"

text \<open>An example document for the witnesses: element 1 carries
  \<open>data-animate\<close>, element 2 carries it and the class
  \<open>svg-chart-wrap\<close>, element 3 carries neither; the document has been
  parsed and the observer constructed.\<close>

definition demo_box :: "int \<Rightarrow> rect" where
  "demo_box y = \<lparr>rect_left = 0, rect_top = y, rect_width = 100, rect_height = 100\<rparr>"

definition demo_page :: page where
  "demo_page =
     (initial_page \<lparr>rect_left = 0, rect_top = 0, rect_width = 800, rect_height = 600\<rparr>)
       \<lparr>store := [1 \<mapsto> \<lparr>attrs = [(''data-animate'', '''')], class_list = [], box = demo_box 0\<rparr>,
                  2 \<mapsto> \<lparr>attrs = [(''data-animate'', ''fade'')], class_list = [''svg-chart-wrap''],
                       box = demo_box 1000\<rparr>,
                  3 \<mapsto> \<lparr>attrs = [], class_list = [''note''], box = demo_box 2000\<rparr>],
        doc := [1, 2, 3], ready := Interactive, io := Some script_observer\<rparr>"

subsection \<open>Lemmas\<close>

lemma candidate_iff:
  "candidate p i \<longleftrightarrow> i \<in> set (doc p) \<and>
     (\<exists>el. store p i = Some el \<and> (matches sel_data_animate el \<or> matches sel_chart_wrap el))"
  by (simp add: candidate_def split: option.splits)

lemma visible_class_valid [simp]: "validate_token visible_class = None"
  by (rule validate_ident_token) (simp add: visible_class_def is_ident_def is_ident_char_def is_digit_def)

lemma callback_entry_eq:
  "callback_entry e p =
     (None, if is_intersecting e
            then observer_unobserve (target e) (snd (class_list_add_at visible_class (target e) p))
            else p)"
  by (auto simp: callback_entry_def class_list_add_at_def class_list_add_valid split: option.splits)

lemma observer_callback_fold:
  "observer_callback es p = (None, fold (\<lambda>e p. snd (callback_entry e p)) es p)"
  by (induction es arbitrary: p) (simp_all add: callback_entry_eq)

lemma callback_entry_fields:
  "store (snd (callback_entry e p)) =
     (if is_intersecting e then (store p)(target e := map_option mark_visible (store p (target e)))
      else store p)"
  "io (snd (callback_entry e p)) =
     (if is_intersecting e then map_option (unobserve (target e)) (io p) else io p)"
  "class_adds (snd (callback_entry e p)) =
     class_adds p + (if is_intersecting e \<and> target e \<in> dom (store p)
                     then {#(target e, visible_class)#} else {#})"
  "doc (snd (callback_entry e p)) = doc p"
  "ready (snd (callback_entry e p)) = ready p"
  "dcl_listeners (snd (callback_entry e p)) = dcl_listeners p"
  "viewport (snd (callback_entry e p)) = viewport p"
  "script_started (snd (callback_entry e p)) = script_started p"
  "query_log (snd (callback_entry e p)) = query_log p"
  by (auto simp: callback_entry_eq class_list_add_at_def class_list_add_valid mark_visible_def
           split: option.splits)

lemma mark_visible_idem [simp]: "mark_visible (mark_visible el) = mark_visible el"
  by (simp add: mark_visible_def)

lemma mark_visible_comp [simp]: "mark_visible \<circ> mark_visible = mark_visible"
  by (simp add: fun_eq_iff)

lemma callback_store:
  "store (snd (observer_callback es p)) i =
     (if i \<in> set (revealed_by es) then map_option mark_visible (store p i) else store p i)"
proof (induction es arbitrary: p)
  case Nil
  then show ?case by (simp add: observer_callback_fold)
next
  case (Cons e es)
  from Cons.IH [of "snd (callback_entry e p)"] show ?case
    by (auto simp: observer_callback_fold callback_entry_fields option.map_comp)
qed

lemma callback_io:
  "io (snd (observer_callback es p)) = map_option (fold unobserve (revealed_by es)) (io p)"
proof (induction es arbitrary: p)
  case Nil
  then show ?case by (simp add: observer_callback_fold option.map_ident)
next
  case (Cons e es)
  from Cons.IH [of "snd (callback_entry e p)"] show ?case
    by (auto simp: observer_callback_fold callback_entry_fields option.map_comp comp_def)
qed

lemma callback_class_adds:
  "class_adds (snd (observer_callback es p)) =
     class_adds p + mset (map (\<lambda>e. (target e, visible_class))
                         (filter (\<lambda>e. is_intersecting e \<and> target e \<in> dom (store p)) es))"
proof (induction es arbitrary: p)
  case Nil
  then show ?case by (simp add: observer_callback_fold)
next
  case (Cons e es)
  have "dom (store (snd (callback_entry e p))) = dom (store p)"
    by (auto simp: callback_entry_fields split: if_splits)
  with Cons.IH [of "snd (callback_entry e p)"] show ?case
    by (auto simp: observer_callback_fold callback_entry_fields)
qed

lemma callback_frame:
  "doc (snd (observer_callback es p)) = doc p"
  "ready (snd (observer_callback es p)) = ready p"
  "dcl_listeners (snd (observer_callback es p)) = dcl_listeners p"
  "viewport (snd (observer_callback es p)) = viewport p"
  "script_started (snd (observer_callback es p)) = script_started p"
  "query_log (snd (observer_callback es p)) = query_log p"
  by (induction es arbitrary: p) (simp_all add: observer_callback_fold callback_entry_fields)

lemma callback_io_eq:
  "io (snd (observer_callback es p)) =
     map_option (\<lambda>ob. ob\<lparr>targets := filter (\<lambda>t. t \<notin> set (revealed_by es)) (targets ob),
                         prev := prev ob |` (- set (revealed_by es))\<rparr>) (io p)"
  unfolding callback_io by (rule option.map_cong0) (simp add: fold_unobserve_eq)

lemma set_revealed_by_mset:
  "mset es = mset es' \<Longrightarrow> set (revealed_by es) = set (revealed_by es')"
  by (metis mset_eq_setD mset_filter mset_map)

text \<open>C10.  The order of the records within a batch does not matter: two
  batches with the same records (as a multiset) leave the same page.\<close>

theorem callback_order_independent:
  assumes "mset es = mset es'"
  shows "observer_callback es p = observer_callback es' p"
proof -
  have T: "target ` {x \<in> set es. is_intersecting x} = target ` {x \<in> set es'. is_intersecting x}"
    using set_revealed_by_mset [OF assms] by simp
  have "snd (observer_callback es p) = snd (observer_callback es' p)"
    by (rule page.equality) (simp_all add: callback_store fun_eq_iff T callback_io_eq callback_class_adds assms callback_frame)
  then show ?thesis by (simp add: observer_callback_fold)
qed

theorem callback_order_independent_witness:
  "mset [\<lparr>target = 1, is_intersecting = True, entry_ratio = 1\<rparr>, \<lparr>target = 3, is_intersecting = False, entry_ratio = 0\<rparr>] = mset [\<lparr>target = 3, is_intersecting = False, entry_ratio = 0\<rparr>, \<lparr>target = 1, is_intersecting = True, entry_ratio = 1\<rparr>] \<and>
   observer_callback [\<lparr>target = 1, is_intersecting = True, entry_ratio = 1\<rparr>, \<lparr>target = 3, is_intersecting = False, entry_ratio = 0\<rparr>] demo_page = observer_callback [\<lparr>target = 3, is_intersecting = False, entry_ratio = 0\<rparr>, \<lparr>target = 1, is_intersecting = True, entry_ratio = 1\<rparr>] demo_page"
proof -
  have h: "mset [\<lparr>target = 1, is_intersecting = True, entry_ratio = 1\<rparr>, \<lparr>target = 3, is_intersecting = False, entry_ratio = 0\<rparr>] = mset [\<lparr>target = 3, is_intersecting = False, entry_ratio = 0\<rparr>, \<lparr>target = 1, is_intersecting = True, entry_ratio = 1\<rparr>]" by simp
  show ?thesis using h callback_order_independent [OF h] by blast
qed

text \<open>C9.  Calling the callback a second time with the same batch, on the page
  the first call left, throws nothing and changes neither any element nor the
  observer: an element already marked is not marked twice.  It does queue the
  same class-attribute mutation records once more, since \<open>classList.add\<close>
  rewrites the attribute on every call.\<close>

theorem callback_idempotent:
  "fst (observer_callback es (snd (observer_callback es p))) = None \<and>
   store (snd (observer_callback es (snd (observer_callback es p)))) = store (snd (observer_callback es p)) \<and>
   io (snd (observer_callback es (snd (observer_callback es p)))) = io (snd (observer_callback es p)) \<and>
   class_adds (snd (observer_callback es (snd (observer_callback es p)))) =
     class_adds (snd (observer_callback es p)) +
     mset (map (\<lambda>e. (target e, visible_class))
            (filter (\<lambda>e. is_intersecting e \<and> target e \<in> dom (store p)) es))"
proof -
  let ?p' = "snd (observer_callback es p)"
  have dom: "dom (store ?p') = dom (store p)"
    by (auto simp: callback_store split: if_splits)
  have "store (snd (observer_callback es ?p')) = store ?p'"
    by (simp add: callback_store fun_eq_iff option.map_comp)
  moreover have "io (snd (observer_callback es ?p')) = io ?p'"
    by (simp add: callback_io option.map_comp comp_def fold_unobserve_idem)
  moreover have "class_adds (snd (observer_callback es ?p')) =
      class_adds ?p' + mset (map (\<lambda>e. (target e, visible_class))
                       (filter (\<lambda>e. is_intersecting e \<and> target e \<in> dom (store p)) es))"
    using callback_class_adds [of es ?p'] dom by simp
  moreover have "fst (observer_callback es ?p') = None"
    by (simp add: observer_callback_fold)
  ultimately show ?thesis by blast
qed

text \<open>C6.  The callback implements the registry contract: when every
  intersecting record's element exists, abstracting the page after the
  batch gives what the abstract batch gives on the abstracted page (the
  intersecting elements leave the registry and are shown; nothing else
  changes).\<close>

theorem callback_refines_spec:
  assumes "\<forall>e \<in> set es. is_intersecting e \<longrightarrow> target e \<in> dom (store p)"
  shows "abs_page (snd (observer_callback es p)) = spec_callback es (abs_page p)"
proof -
  have w: "set (registered (snd (observer_callback es p))) = set (registered p) - set (revealed_by es)"
    by (auto simp: registered_def callback_io_eq split: option.splits)
  have s: "has_class visible_class i (snd (observer_callback es p)) \<longleftrightarrow>
             has_class visible_class i p \<or> i \<in> set (revealed_by es)" for i
    using assms
    by (auto simp: has_class_def callback_store mark_visible_def split: option.splits)
  show ?thesis
    by (simp add: abs_page_def spec_callback_eq w s set_eq_iff del: set_map set_filter)
qed

theorem callback_refines_spec_witness:
  "(1 :: node_id) \<in> dom (store demo_page) \<and>
   abs_page (snd (observer_callback [\<lparr>target = 1, is_intersecting = True, entry_ratio = 1\<rparr>] demo_page)) = spec_callback [\<lparr>target = 1, is_intersecting = True, entry_ratio = 1\<rparr>] (abs_page demo_page)"
proof -
  have h: "\<forall>e \<in> set [\<lparr>target = 1, is_intersecting = True, entry_ratio = 1\<rparr>]. is_intersecting e \<longrightarrow> target e \<in> dom (store demo_page)"
    by (simp add: demo_page_def initial_page_def)
  have "(1 :: node_id) \<in> dom (store demo_page)"
    by (simp add: demo_page_def initial_page_def)
  then show ?thesis using callback_refines_spec [OF h] by blast
qed

lemma observe_each_io: "io (observe_each is p) = map_option (fold observe is) (io p)"
  by (induction "is" arbitrary: p) (simp_all add: option.map_comp comp_def option.map_id)

lemma observe_each_frame [simp]:
  "store (observe_each is p) = store p"
  "doc (observe_each is p) = doc p"
  "ready (observe_each is p) = ready p"
  "dcl_listeners (observe_each is p) = dcl_listeners p"
  "viewport (observe_each is p) = viewport p"
  "script_started (observe_each is p) = script_started p"
  "query_log (observe_each is p) = query_log p"
  "class_adds (observe_each is p) = class_adds p"
  by (induction "is" arbitrary: p) simp_all

lemma init_eq:
  "init p =
     observe_each (fst (query_selector_all sel_chart_wrap p))
       (snd (query_selector_all sel_chart_wrap
          (observe_each (fst (query_selector_all sel_data_animate p))
             (snd (query_selector_all sel_data_animate p)))))"
  by (simp add: init_def query_selector_all_def split_def Let_def)

lemma init_frame [simp]:
  "store (init p) = store p"
  "doc (init p) = doc p"
  "ready (init p) = ready p"
  "dcl_listeners (init p) = dcl_listeners p"
  "viewport (init p) = viewport p"
  "script_started (init p) = script_started p"
  "class_adds (init p) = class_adds p"
  "query_log (init p) = query_log p @ [(sel_data_animate, ready p), (sel_chart_wrap, ready p)]"
  by (simp_all add: init_eq)

lemma init_io:
  "io (init p) =
     map_option (fold observe (fst (query_selector_all sel_data_animate p) @
                               fst (query_selector_all sel_chart_wrap p))) (io p)"
  by (simp add: init_eq observe_each_io query_selector_all_def option.map_comp comp_def)

text \<open>C4.  \<open>init\<close>, run with a fresh observer, registers every element
  of the document that carries \<open>data-animate\<close> or the class
  \<open>svg-chart-wrap\<close> exactly once, even when it has both, and nothing
  else.\<close>

theorem init_registers_each_once:
  assumes "io p = Some ob" and "targets ob = []"
  shows "count_list (registered (init p)) i = (if candidate p i then 1 else 0)"
proof -
  let ?cs = "fst (query_selector_all sel_data_animate p) @ fst (query_selector_all sel_chart_wrap p)"
  have r: "registered (init p) = fold ordset_append ?cs []"
    using assms by (simp add: registered_def init_io fold_observe)
  have "distinct (fold ordset_append ?cs [])" by simp
  moreover have "i \<in> set (fold ordset_append ?cs []) \<longleftrightarrow> candidate p i"
    by (auto simp: set_query_selector_all candidate_iff)
  ultimately show ?thesis
    by (simp add: r count_list_distinct)
qed


theorem init_registers_each_once_witness:
  "io demo_page = Some script_observer \<and> targets script_observer = [] \<and>
   count_list (registered (init demo_page)) 2 = 1 \<and> count_list (registered (init demo_page)) 3 = 0"
proof -
  have h: "io demo_page = Some script_observer" "targets script_observer = []"
    by (simp_all add: demo_page_def initial_page_def)
  have "count_list (registered (init demo_page)) 2 = 1"
    using init_registers_each_once [OF h, of 2]
    by (simp add: candidate_iff sel_data_animate_def sel_chart_wrap_def demo_page_def initial_page_def)
  moreover have "count_list (registered (init demo_page)) 3 = 0"
    using init_registers_each_once [OF h, of 3]
    by (simp add: candidate_iff sel_data_animate_def sel_chart_wrap_def demo_page_def initial_page_def)
  ultimately show ?thesis using h by simp
qed

text \<open>The two selector strings of \<open>init\<close> are in the selector
  fragment, so \<open>querySelectorAll\<close> does not throw on them: they parse to
  the attribute selector \<open>[data-animate]\<close> and the class selector
  \<open>.svg-chart-wrap\<close>, and print back to the same text.\<close>

lemma script_selectors_parse:
  "parse_selector data_animate_text = Some sel_data_animate \<and>
   parse_selector chart_wrap_text = Some sel_chart_wrap \<and>
   print_selector sel_data_animate = data_animate_text \<and>
   print_selector sel_chart_wrap = chart_wrap_text"
  by (simp add: data_animate_text_def chart_wrap_text_def sel_data_animate_def sel_chart_wrap_def
                is_ident_def is_ident_char_def is_digit_def)

lemma create_observer_script:
  "create_observer observer_thresholds observer_root_margin_text = Inr script_observer"
  by (simp add: create_observer_def observer_thresholds_def observer_root_margin_text_def
                parse_root_margin_def parse_px_def digits_val_def is_digit_def)

text \<open>The top level: the observer constructor does not throw on the
  script's options and builds an observer with the single threshold 0.15
  and the bottom edge of the root moved up by 40 pixels; then, while the
  document is loading, \<open>init\<close> is only registered for
  \<open>DOMContentLoaded\<close> (no query runs), and otherwise it runs at once.\<close>

lemma script_main_eq:
  "script_main p =
     (None, if ready p = Loading
            then p\<lparr>io := Some script_observer, dcl_listeners := ordset_append Fn_init (dcl_listeners p)\<rparr>
            else init (p\<lparr>io := Some script_observer\<rparr>))"
  by (simp add: script_main_def create_observer_script add_dcl_listener_def)

end
