(* ===== verification/Browser.thy ===== *)
theory Browser
  imports Animations
begin

text \<open>
  The page's life as a sequence of events the browser delivers on its one
  thread: the script element runs (once), the parser appends elements while
  the document is loading, parsing ends (\<open>readyState\<close> becomes
  \<open>interactive\<close> and \<open>DOMContentLoaded\<close> listeners run), loading ends,
  other code inserts elements later, the user scrolls, layout moves an
  element, a rendering step runs the intersection update steps, and the
  notification task hands the queued entries to the script's callback.
  \<open>exec_event\<close> is the step function (\<open>None\<close>: the event cannot happen
  in this state), \<open>run\<close> its iteration over a list of events, and
  \<open>reachable\<close> the states a page can reach from a fresh document.  The
  browser's rule for \<open>isIntersecting\<close> is the parameter \<open>obsf\<close>.
\<close>

type_synonym obs_fn = "rat list \<Rightarrow> rect \<Rightarrow> rect \<Rightarrow> nat \<times> bool"

datatype event =
    Run_script
  | Parse_element node_id element
  | Finish_parsing
  | Finish_loading
  | Insert_element node_id element
  | Scroll rect
  | Relayout node_id rect
  | Render
  | Notify

text \<open>Calling a script function the browser holds a reference to.\<close>

definition dispatch :: "script_fn \<Rightarrow> page \<Rightarrow> page" where
  "dispatch f p = (case f of Fn_init \<Rightarrow> init p)"

text \<open>Firing \<open>DOMContentLoaded\<close>: the listeners in registration order.\<close>

definition fire_dcl :: "page \<Rightarrow> page" where
  "fire_dcl p = fold dispatch (dcl_listeners p) p"

definition add_element :: "node_id \<Rightarrow> element \<Rightarrow> page \<Rightarrow> page" where
  "add_element i el p = p\<lparr>store := (store p)(i \<mapsto> el), doc := doc p @ [i]\<rparr>"

fun exec_event :: "obs_fn \<Rightarrow> event \<Rightarrow> page \<Rightarrow> page option" where
  "exec_event obsf Run_script p =
     (if script_started p then None
      else Some (snd (script_main (p\<lparr>script_started := True\<rparr>))))"
| "exec_event obsf (Parse_element i el) p =
     (if ready p = Loading \<and> store p i = None \<and> wf_element el
      then Some (add_element i el p) else None)"
| "exec_event obsf Finish_parsing p =
     (if ready p = Loading then Some (fire_dcl (p\<lparr>ready := Interactive\<rparr>)) else None)"
| "exec_event obsf Finish_loading p =
     (if ready p = Interactive then Some (p\<lparr>ready := Complete\<rparr>) else None)"
| "exec_event obsf (Insert_element i el) p =
     (if ready p \<noteq> Loading \<and> store p i = None \<and> wf_element el
      then Some (add_element i el p) else None)"
| "exec_event obsf (Scroll v) p =
     (if wf_rect v then Some (p\<lparr>viewport := v\<rparr>) else None)"
| "exec_event obsf (Relayout i r) p =
     (case store p i of
        Some el \<Rightarrow> if wf_rect r then Some (p\<lparr>store := (store p)(i \<mapsto> el\<lparr>box := r\<rparr>)\<rparr>) else None
      | None \<Rightarrow> None)"
| "exec_event obsf Render p =
     Some (p\<lparr>io := map_option (update_observations obsf (viewport p) (boxes p)) (io p)\<rparr>)"
| "exec_event obsf Notify p =
     (case io p of
        Some ob \<Rightarrow>
          if queued ob = [] then None
          else Some (snd (observer_callback (queued ob) (p\<lparr>io := Some (ob\<lparr>queued := []\<rparr>)\<rparr>)))
      | None \<Rightarrow> None)"

fun run :: "obs_fn \<Rightarrow> event list \<Rightarrow> page \<Rightarrow> page option" where
  "run obsf [] p = Some p"
| "run obsf (e # es) p = (case exec_event obsf e p of None \<Rightarrow> None | Some p' \<Rightarrow> run obsf es p')"

inductive reachable :: "obs_fn \<Rightarrow> page \<Rightarrow> bool" for obsf where
  start: "wf_rect v \<Longrightarrow> reachable obsf (initial_page v)"
| step: "reachable obsf p \<Longrightarrow> exec_event obsf e p = Some p' \<Longrightarrow> reachable obsf p'"

end
