(* ===== verification/Page_Invariant.thy ===== *)
theory Page_Invariant
  imports Browser
begin

text \<open>
  The invariant every reachable page satisfies, in four parts: the document
  (\<open>inv_doc\<close>: tree order without repeats, every element well formed), the
  observer (\<open>inv_obs\<close>: well formed, targets and queued entries name
  existing elements, the script's options, and every target whose last
  computed state was intersecting still has an intersecting entry queued),
  the script (\<open>inv_script\<close>: the observer exists once the script has
  started, \<open>init\<close> is registered for \<open>DOMContentLoaded\<close> exactly while
  the document loads after the script started, and the two queries ran
  once, together, after parsing), and the reveal bookkeeping
  (\<open>inv_reveal\<close>: nothing is registered, queued or marked before the
  queries ran; every \<open>classList.add\<close> record is for \<open>is-visible\<close> on an
  element that has it; a revealed element is neither registered nor queued;
  every registered element is a candidate).  One lemma per event shows that
  the event keeps the invariant; \<open>reachable_page_inv\<close> lifts it to every
  reachable page by rule induction.  On top of it: the progress lemma
  \<open>reveal_on_next_pass\<close> for any reading of \<open>isIntersecting\<close>; runs along
  which an element stays below the threshold (\<open>reachable_while\<close>,
  \<open>run_while\<close>), on which it stays \<open>quiet\<close> and keeps its registration;
  and the abstraction \<open>abs_run\<close> of a page to the registry contract, with
  one lemma per kind of event computing the abstract step.
\<close>

definition inv_doc :: "page \<Rightarrow> bool" where
  "inv_doc p \<longleftrightarrow> distinct (doc p) \<and> set (doc p) \<subseteq> dom (store p) \<and>
     (\<forall>i el. store p i = Some el \<longrightarrow> wf_element el) \<and> wf_rect (viewport p)"

definition pending_true :: "observer \<Rightarrow> bool" where
  "pending_true ob \<longleftrightarrow>
     (\<forall>t \<in> set (targets ob). \<forall>k. prev ob t = Some (k, True) \<longrightarrow>
        (\<exists>e \<in> set (queued ob). target e = t \<and> is_intersecting e))"

definition inv_obs :: "page \<Rightarrow> bool" where
  "inv_obs p \<longleftrightarrow>
     (case io p of
        None \<Rightarrow> True
      | Some ob \<Rightarrow> wf_observer ob \<and> set (targets ob) \<subseteq> dom (store p) \<and>
          (\<forall>e \<in> set (queued ob). target e \<in> dom (store p)) \<and>
          thresholds ob = thresholds script_observer \<and> root_margin ob = root_margin script_observer \<and>
          pending_true ob)"

definition revealed :: "page \<Rightarrow> node_id set" where
  "revealed p = fst ` set_mset (class_adds p)"

definition inv_script :: "page \<Rightarrow> bool" where
  "inv_script p \<longleftrightarrow>
     (script_started p \<longleftrightarrow> io p \<noteq> None) \<and>
     (\<not> script_started p \<longrightarrow> dcl_listeners p = []) \<and>
     dcl_listeners p \<in> {[], [Fn_init]} \<and>
     (script_started p \<and> ready p = Loading \<longrightarrow> dcl_listeners p = [Fn_init]) \<and>
     (query_log p = [] \<or>
      (\<exists>r. r \<noteq> Loading \<and> query_log p = [(sel_data_animate, r), (sel_chart_wrap, r)])) \<and>
     (query_log p \<noteq> [] \<longleftrightarrow> script_started p \<and> ready p \<noteq> Loading)"

definition inv_reveal :: "page \<Rightarrow> bool" where
  "inv_reveal p \<longleftrightarrow>
     (query_log p = [] \<longrightarrow>
        registered p = [] \<and> (\<forall>ob. io p = Some ob \<longrightarrow> queued ob = []) \<and> class_adds p = {#}) \<and>
     (\<forall>x \<in># class_adds p. snd x = visible_class \<and> has_class visible_class (fst x) p) \<and>
     (\<forall>ob. io p = Some ob \<longrightarrow>
        (\<forall>i \<in> revealed p. i \<notin> set (targets ob) \<and> (\<forall>e \<in> set (queued ob). target e \<noteq> i))) \<and>
     (\<forall>t \<in> set (registered p). candidate p t)"

definition page_inv :: "page \<Rightarrow> bool" where
  "page_inv p \<longleftrightarrow> inv_doc p \<and> inv_obs p \<and> inv_script p \<and> inv_reveal p"

text \<open>Runs along which a predicate holds in every state; the predicate
  that an element's box is below the threshold whenever the observer could
  look at it; and the bookkeeping that such an element keeps.\<close>

definition below :: "obs_fn \<Rightarrow> node_id \<Rightarrow> page \<Rightarrow> bool" where
  "below obsf t p \<longleftrightarrow>
     (case (io p, store p t) of
        (Some ob, Some el) \<Rightarrow>
          \<not> snd (obsf (thresholds ob) (box el) (apply_margin (root_margin ob) (viewport p)))
      | _ \<Rightarrow> True)"

inductive reachable_while :: "obs_fn \<Rightarrow> (page \<Rightarrow> bool) \<Rightarrow> page \<Rightarrow> bool" for obsf P where
  start: "wf_rect v \<Longrightarrow> P (initial_page v) \<Longrightarrow> reachable_while obsf P (initial_page v)"
| step: "reachable_while obsf P p \<Longrightarrow> exec_event obsf e p = Some p' \<Longrightarrow> P p' \<Longrightarrow>
           reachable_while obsf P p'"

text \<open>A run that also checks a predicate after every event (\<open>None\<close> when
  an event is disabled or the predicate fails): an executable way to build
  a \<open>reachable_while\<close> derivation.\<close>

fun run_while :: "obs_fn \<Rightarrow> (page \<Rightarrow> bool) \<Rightarrow> event list \<Rightarrow> page \<Rightarrow> page option" where
  "run_while obsf P [] p = Some p"
| "run_while obsf P (e # es) p =
     (case exec_event obsf e p of
        None \<Rightarrow> None
      | Some p' \<Rightarrow> if P p' then run_while obsf P es p' else None)"

definition quiet :: "node_id \<Rightarrow> page \<Rightarrow> bool" where
  "quiet t p \<longleftrightarrow> t \<notin> revealed p \<and>
     (\<forall>ob. io p = Some ob \<longrightarrow> (\<forall>e \<in> set (queued ob). target e = t \<longrightarrow> \<not> is_intersecting e))"

text \<open>The abstraction of a page to the registry contract of \<open>Registry\<close>
  along a run: the elements the observer watches, and the elements the
  script has revealed (those with a \<open>classList.add\<close> record).\<close>

definition abs_run :: "page \<Rightarrow> registry" where
  "abs_run p = \<lparr>watched = set (registered p), shown = revealed p\<rparr>"

subsection \<open>Lemmas\<close>

lemma pending_true_observe: "pending_true ob \<Longrightarrow> pending_true (observe t ob)"
  by (auto simp: pending_true_def observe_def)

lemma pending_true_fold_observe: "pending_true ob \<Longrightarrow> pending_true (fold observe ts ob)"
  by (induction ts arbitrary: ob) (simp_all add: pending_true_observe)

lemma pending_true_update_target:
  "pending_true ob \<Longrightarrow> pending_true (update_target obsf rb bx t ob)"
  by (auto simp: pending_true_def update_target_def split: option.splits prod.splits if_splits)

lemma pending_true_update_observations:
  "pending_true ob \<Longrightarrow> pending_true (update_observations obsf v bx ob)"
proof -
  have "pending_true ob \<Longrightarrow> pending_true (fold (update_target obsf rb bx) ts ob)" for ts rb
    by (induction ts arbitrary: ob) (simp_all add: pending_true_update_target)
  then show "pending_true ob \<Longrightarrow> ?thesis" by (simp add: update_observations_def)
qed

lemma candidate_add_element:
  "candidate p t \<Longrightarrow> store p i = None \<Longrightarrow> candidate (add_element i el p) t"
  by (auto simp: candidate_iff add_element_def)

lemma page_inv_initial: "wf_rect v \<Longrightarrow> page_inv (initial_page v)"
  by (simp add: page_inv_def inv_doc_def inv_obs_def inv_script_def inv_reveal_def
                initial_page_def registered_def revealed_def)

text \<open>\<open>init\<close> on a page where nothing is registered or revealed yet.\<close>

lemma init_page_inv:
  assumes doc: "inv_doc q" and obs: "inv_obs q" and io: "io q = Some ob"
    and fresh: "targets ob = []" "queued ob = []" "class_adds q = {#}" "query_log q = []"
    and started: "script_started q" "ready q \<noteq> Loading"
    and lst: "dcl_listeners q \<in> {[], [Fn_init]}"
  shows "page_inv (init q)"
proof -
  let ?cs = "fst (query_selector_all sel_data_animate q) @ fst (query_selector_all sel_chart_wrap q)"
  have io': "io (init q) = Some (fold observe ?cs ob)"
    by (simp add: init_io io)
  have cs_doc: "set ?cs \<subseteq> set (doc q)"
    by (auto simp: set_query_selector_all)
  have cs_cand: "\<forall>t \<in> set ?cs. candidate q t"
    by (auto simp: set_query_selector_all candidate_iff)
  have "inv_doc (init q)"
    using doc by (simp add: inv_doc_def)
  moreover have "inv_obs (init q)"
    using obs doc cs_doc io fresh
    by (auto simp: inv_obs_def io' fold_observe wf_fold_observe pending_true_fold_observe inv_doc_def)
  moreover have "inv_script (init q)"
    using started lst fresh by (auto simp: inv_script_def io')
  moreover have "inv_reveal (init q)"
    using fresh cs_cand
    by (auto simp: inv_reveal_def revealed_def registered_def io' fold_observe candidate_iff)
  ultimately show ?thesis by (simp add: page_inv_def)
qed

lemma inv_Run_script:
  assumes inv: "page_inv p" and ex: "exec_event obsf Run_script p = Some p'"
  shows "page_inv p'"
proof -
  from ex have ns: "\<not> script_started p"
    and p': "p' = snd (script_main (p\<lparr>script_started := True\<rparr>))"
    by (auto split: if_splits)
  from inv ns have io: "io p = None" and dl: "dcl_listeners p = []" and ql: "query_log p = []"
    and ca: "class_adds p = {#}"
    by (auto simp: page_inv_def inv_script_def inv_reveal_def)
  from inv have doc: "inv_doc p" by (simp add: page_inv_def)
  let ?q = "p\<lparr>script_started := True, io := Some script_observer\<rparr>"
  show ?thesis
  proof (cases "ready p = Loading")
    case True
    then have "p' = ?q\<lparr>dcl_listeners := [Fn_init]\<rparr>"
      by (simp add: p' script_main_eq dl ordset_append_def)
    with True doc ql ca show ?thesis
      by (simp add: page_inv_def inv_doc_def inv_obs_def wf_observer_def pending_true_def
                    inv_script_def inv_reveal_def registered_def revealed_def)
  next
    case False
    then have "p' = init ?q" by (simp add: p' script_main_eq)
    moreover have "page_inv (init ?q)"
      by (rule init_page_inv [where ob = script_observer])
         (use doc ql ca False dl in \<open>simp_all add: inv_doc_def inv_obs_def wf_observer_def pending_true_def\<close>)
    ultimately show ?thesis by simp
  qed
qed

lemma fire_dcl_cases:
  "dcl_listeners p \<in> {[], [Fn_init]} \<Longrightarrow>
     fire_dcl p = (if dcl_listeners p = [] then p else init p)"
  by (auto simp: fire_dcl_def dispatch_def)

lemma inv_Finish_parsing:
  assumes inv: "page_inv p" and ex: "exec_event obsf Finish_parsing p = Some p'"
  shows "page_inv p'"
proof -
  from ex have ld: "ready p = Loading" and p': "p' = fire_dcl (p\<lparr>ready := Interactive\<rparr>)"
    by (auto split: if_splits)
  from inv ld have ql: "query_log p = []" and lst: "dcl_listeners p \<in> {[], [Fn_init]}"
    by (auto simp: page_inv_def inv_script_def)
  from inv ql have reg: "registered p = []" "\<forall>ob. io p = Some ob \<longrightarrow> queued ob = []"
    and ca: "class_adds p = {#}"
    by (auto simp: page_inv_def inv_reveal_def)
  let ?q = "p\<lparr>ready := Interactive\<rparr>"
  show ?thesis
  proof (cases "script_started p")
    case False
    with inv have "dcl_listeners p = []" by (simp add: page_inv_def inv_script_def)
    then have "p' = ?q" using lst by (simp add: p' fire_dcl_cases)
    with inv ql False show ?thesis
      by (simp add: page_inv_def inv_doc_def inv_obs_def inv_script_def inv_reveal_def
                    registered_def revealed_def candidate_iff)
  next
    case True
    with inv ld have "dcl_listeners p = [Fn_init]" by (simp add: page_inv_def inv_script_def)
    then have p'i: "p' = init ?q" by (simp add: p' fire_dcl_cases)
    from inv True obtain ob where io: "io p = Some ob"
      by (auto simp: page_inv_def inv_script_def)
    have "page_inv (init ?q)"
    proof (rule init_page_inv [where ob = ob])
      show "inv_doc ?q" "inv_obs ?q"
        using inv by (simp_all add: page_inv_def inv_doc_def inv_obs_def split: option.splits)
      show "targets ob = []" "queued ob = []"
        using reg io by (simp_all add: registered_def)
    qed (use io ca ql True \<open>dcl_listeners p = [Fn_init]\<close> in simp_all)
    with p'i show ?thesis by simp
  qed
qed

lemma inv_Finish_loading:
  assumes inv: "page_inv p" and ex: "exec_event obsf Finish_loading p = Some p'"
  shows "page_inv p'"
proof -
  from ex have it: "ready p = Interactive" and p': "p' = p\<lparr>ready := Complete\<rparr>"
    by (auto split: if_splits)
  with inv show ?thesis
    by (auto simp: page_inv_def inv_doc_def inv_obs_def inv_script_def inv_reveal_def
                   registered_def revealed_def candidate_iff has_class_def)
qed

lemma inv_add_element:
  assumes inv: "page_inv p" and fresh: "store p i = None" and wf: "wf_element el"
  shows "page_inv (add_element i el p)"
proof -
  from inv fresh have nd: "i \<notin> set (doc p)"
    by (auto simp: page_inv_def inv_doc_def)
  have hc: "has_class c j p \<Longrightarrow> has_class c j (add_element i el p)" for c j
    using fresh by (auto simp: has_class_def add_element_def split: option.splits)
  have "inv_doc (add_element i el p)"
    using inv nd wf by (auto simp: page_inv_def inv_doc_def add_element_def)
  moreover have "inv_obs (add_element i el p)"
    using inv by (auto simp: page_inv_def inv_obs_def add_element_def split: option.splits)
  moreover have "inv_script (add_element i el p)"
    using inv by (simp add: page_inv_def inv_script_def add_element_def)
  moreover have "inv_reveal (add_element i el p)"
    using inv hc candidate_add_element [OF _ fresh]
    by (simp add: page_inv_def inv_reveal_def add_element_def registered_def revealed_def)
  ultimately show ?thesis by (simp add: page_inv_def)
qed

lemma inv_Parse_element:
  "page_inv p \<Longrightarrow> exec_event obsf (Parse_element i el) p = Some p' \<Longrightarrow> page_inv p'"
  by (auto intro: inv_add_element split: if_splits)

lemma inv_Insert_element:
  "page_inv p \<Longrightarrow> exec_event obsf (Insert_element i el) p = Some p' \<Longrightarrow> page_inv p'"
  by (auto intro: inv_add_element split: if_splits)

lemma inv_Scroll:
  assumes inv: "page_inv p" and ex: "exec_event obsf (Scroll v) p = Some p'"
  shows "page_inv p'"
proof -
  from ex have wv: "wf_rect v" and p': "p' = p\<lparr>viewport := v\<rparr>"
    by (auto split: if_splits)
  have hc: "has_class c j p' \<longleftrightarrow> has_class c j p" for c j
    by (simp add: p' has_class_def)
  have cd: "candidate p' t \<longleftrightarrow> candidate p t" for t
    by (simp add: p' candidate_iff)
  have "inv_doc p'"
    using inv wv by (simp add: page_inv_def inv_doc_def p')
  moreover have "inv_obs p'"
    using inv by (simp add: page_inv_def inv_obs_def p' split: option.splits)
  moreover have "inv_script p'"
    using inv by (simp add: page_inv_def inv_script_def p')
  moreover have "inv_reveal p'"
    using inv hc cd by (simp add: page_inv_def inv_reveal_def p' registered_def revealed_def)
  ultimately show ?thesis by (simp add: page_inv_def)
qed

lemma inv_Relayout:
  assumes inv: "page_inv p" and ex: "exec_event obsf (Relayout i r) p = Some p'"
  shows "page_inv p'"
proof -
  from ex obtain el where el: "store p i = Some el" and wr: "wf_rect r"
    and p': "p' = p\<lparr>store := (store p)(i \<mapsto> el\<lparr>box := r\<rparr>)\<rparr>"
    by (auto split: option.splits if_splits)
  have hc: "has_class c j p' \<longleftrightarrow> has_class c j p" for c j
    using el by (simp add: p' has_class_def)
  have cd: "candidate p' t \<longleftrightarrow> candidate p t" for t
    using el by (auto simp: p' candidate_iff)
  have dm: "dom (store p') = dom (store p)"
    using el by (auto simp: p')
  have "inv_doc p'"
    using inv el wr dm by (auto simp: page_inv_def inv_doc_def p' wf_element_def)
  moreover have "inv_obs p'"
    using inv dm by (simp add: page_inv_def inv_obs_def p' split: option.splits)
  moreover have "inv_script p'"
    using inv by (simp add: page_inv_def inv_script_def p')
  moreover have "inv_reveal p'"
    using inv hc cd by (simp add: page_inv_def inv_reveal_def p' registered_def revealed_def)
  ultimately show ?thesis by (simp add: page_inv_def)
qed

lemma inv_Render:
  assumes inv: "page_inv p" and ex: "exec_event obsf Render p = Some p'"
  shows "page_inv p'"
proof -
  from ex have p': "p' = p\<lparr>io := map_option (update_observations obsf (viewport p) (boxes p)) (io p)\<rparr>"
    by simp
  have hc: "has_class c j p' \<longleftrightarrow> has_class c j p" for c j
    by (simp add: p' has_class_def)
  have cd: "candidate p' t \<longleftrightarrow> candidate p t" for t
    by (simp add: p' candidate_iff)
  show ?thesis
  proof (cases "io p")
    case None
    with inv show ?thesis
      by (simp add: p' page_inv_def inv_doc_def inv_obs_def inv_script_def inv_reveal_def
                    registered_def revealed_def has_class_def candidate_iff)
  next
    case (Some ob)
    let ?ob' = "update_observations obsf (viewport p) (boxes p) ob"
    obtain new where q: "queued ?ob' = queued ob @ new"
      and nf: "entries_for obsf (apply_margin (root_margin ob) (viewport p)) (boxes p) ob
                 (set (targets ob)) new"
      using update_observations_queued by blast
    have nt: "\<forall>e \<in> set new. target e \<in> set (targets ob)"
      using nf by (simp add: entries_for_def)
    have io': "io p' = Some ?ob'" by (simp add: p' Some)
    have fr: "store p' = store p" "class_adds p' = class_adds p" "query_log p' = query_log p"
      by (simp_all add: p')
    from inv Some have o: "wf_observer ob" "set (targets ob) \<subseteq> dom (store p)"
      "\<forall>e \<in> set (queued ob). target e \<in> dom (store p)" "pending_true ob"
      "thresholds ob = thresholds script_observer" "root_margin ob = root_margin script_observer"
      by (simp_all add: page_inv_def inv_obs_def)
    have "inv_doc p'"
      using inv by (simp add: page_inv_def inv_doc_def p')
    moreover have "inv_obs p'"
      using o nt q by (auto simp: inv_obs_def io' fr wf_update_observations pending_true_update_observations)
    moreover have "inv_script p'"
      using inv Some by (simp add: page_inv_def inv_script_def p')
    moreover have "inv_reveal p'"
    proof -
      from inv Some have r: "query_log p = [] \<longrightarrow> targets ob = [] \<and> queued ob = [] \<and> class_adds p = {#}"
        "\<forall>x \<in># class_adds p. snd x = visible_class \<and> has_class visible_class (fst x) p"
        "\<forall>i \<in> revealed p. i \<notin> set (targets ob) \<and> (\<forall>e \<in> set (queued ob). target e \<noteq> i)"
        "\<forall>t \<in> set (targets ob). candidate p t"
        by (simp_all add: page_inv_def inv_reveal_def registered_def)
      have "targets ob = [] \<Longrightarrow> new = []"
        using nt by (cases new) auto
      with r nt show ?thesis
        by (auto simp: inv_reveal_def registered_def io' q hc cd revealed_def fr) (metis fst_conv)
    qed
    ultimately show ?thesis by (simp add: page_inv_def)
  qed
qed

lemma wf_mark_visible: "wf_element el \<Longrightarrow> wf_element (mark_visible el)"
  by (simp add: wf_element_def mark_visible_def)

lemma has_class_mark_visible:
  "c \<in> set (class_list el) \<Longrightarrow> c \<in> set (class_list (mark_visible el))"
  "visible_class \<in> set (class_list (mark_visible el))"
  by (simp_all add: mark_visible_def)

lemma inv_Notify:
  assumes inv: "page_inv p" and ex: "exec_event obsf Notify p = Some p'"
  shows "page_inv p'"
proof -
  from ex obtain ob where io: "io p = Some ob" and ne: "queued ob \<noteq> []"
    and p': "p' = snd (observer_callback (queued ob) (p\<lparr>io := Some (ob\<lparr>queued := []\<rparr>)\<rparr>))"
    by (auto split: option.splits if_splits)
  let ?q = "p\<lparr>io := Some (ob\<lparr>queued := []\<rparr>)\<rparr>"
  let ?T = "set (revealed_by (queued ob))"
  let ?ob' = "ob\<lparr>queued := [], targets := filter (\<lambda>t. t \<notin> ?T) (targets ob), prev := prev ob |` (- ?T)\<rparr>"
  have st: "store p' i = (if i \<in> ?T then map_option mark_visible (store p i) else store p i)" for i
    by (simp add: p' callback_store)
  have dm: "dom (store p') = dom (store p)"
    by (auto simp: st split: if_splits)
  have io': "io p' = Some ?ob'"
    by (simp add: p' callback_io_eq)
  have ca: "class_adds p' = class_adds p + mset (map (\<lambda>e. (target e, visible_class))
              (filter (\<lambda>e. is_intersecting e \<and> target e \<in> dom (store p)) (queued ob)))"
    by (simp add: p' callback_class_adds)
  have fr: "doc p' = doc p" "ready p' = ready p" "dcl_listeners p' = dcl_listeners p"
    "viewport p' = viewport p" "script_started p' = script_started p" "query_log p' = query_log p"
    by (simp_all add: p' callback_frame)
  have hc: "has_class c j p \<Longrightarrow> has_class c j p'" for c j
    by (auto simp: has_class_def st has_class_mark_visible split: option.splits)
  have hv: "x \<in> set (queued ob) \<Longrightarrow> is_intersecting x \<Longrightarrow> store p (target x) = Some y \<Longrightarrow>
      has_class visible_class (target x) p'" for x y
    by (auto simp: has_class_def st has_class_mark_visible)
  have cd: "candidate p t \<Longrightarrow> candidate p' t" for t
    by (auto simp: candidate_iff st fr mark_visible_def sel_chart_wrap_def sel_data_animate_def)
       (metis fst_conv image_eqI)
  from inv io have o: "wf_observer ob" "set (targets ob) \<subseteq> dom (store p)" "pending_true ob"
      "thresholds ob = thresholds script_observer" "root_margin ob = root_margin script_observer"
    by (simp_all add: page_inv_def inv_obs_def)
  from inv io ne have ql: "query_log p \<noteq> []"
    by (auto simp: page_inv_def inv_reveal_def)
  from inv io have r: "\<forall>x \<in># class_adds p. snd x = visible_class \<and> has_class visible_class (fst x) p"
      "\<forall>i \<in> revealed p. i \<notin> set (targets ob)" "\<forall>t \<in> set (targets ob). candidate p t"
    by (simp_all add: page_inv_def inv_reveal_def registered_def)
  have "inv_doc p'"
    using inv by (auto simp: page_inv_def inv_doc_def fr dm st wf_mark_visible split: if_splits)
  moreover have "inv_obs p'"
  proof -
    have "pending_true ?ob'"
      using o(3) by (auto simp: pending_true_def restrict_map_def)
    with o show ?thesis
      by (auto simp: inv_obs_def io' dm wf_observer_def)
  qed
  moreover have "inv_script p'"
    using inv io by (simp add: page_inv_def inv_script_def fr io')
  moreover have "inv_reveal p'"
    using ql r hc hv cd
    by (auto simp: inv_reveal_def fr io' ca registered_def revealed_def)
  ultimately show ?thesis by (simp add: page_inv_def)
qed

lemmas inv_event_steps = inv_Run_script inv_Parse_element inv_Finish_parsing
  inv_Finish_loading inv_Insert_element inv_Scroll inv_Relayout inv_Render inv_Notify

lemma exec_event_page_inv:
  assumes "page_inv p" and "exec_event obsf e p = Some p'"
  shows "page_inv p'"
  using assms by (cases e) (blast intro: inv_event_steps)+

lemma reachable_page_inv: "reachable obsf p \<Longrightarrow> page_inv p"
proof (induction rule: reachable.induct)
  case (start v)
  then show ?case by (rule page_inv_initial)
next
  case (step p e p')
  then show ?case using exec_event_page_inv by blast
qed

lemma run_reachable: "reachable obsf p \<Longrightarrow> run obsf evs p = Some p' \<Longrightarrow> reachable obsf p'"
proof (induction evs arbitrary: p)
  case Nil
  then show ?case by simp
next
  case (Cons e evs)
  then show ?case by (auto intro: reachable.step split: option.splits)
qed

lemma fold_dispatch_frame [simp]:
  "class_adds (fold dispatch fs p) = class_adds p"
  "store (fold dispatch fs p) = store p"
  "doc (fold dispatch fs p) = doc p"
  "viewport (fold dispatch fs p) = viewport p"
  by (induction fs arbitrary: p) (simp_all add: dispatch_def split: script_fn.splits)

lemma exec_event_class_adds:
  "exec_event obsf e p = Some p' \<Longrightarrow> e \<noteq> Notify \<Longrightarrow> class_adds p' = class_adds p"
  by (cases e) (auto simp: script_main_eq add_element_def fire_dcl_def
                     split: if_splits option.splits)

lemma notify_eq:
  "exec_event obsf Notify p = Some p' \<longleftrightarrow>
     (\<exists>ob. io p = Some ob \<and> queued ob \<noteq> [] \<and>
        p' = snd (observer_callback (queued ob) (p\<lparr>io := Some (ob\<lparr>queued := []\<rparr>)\<rparr>)))"
  by (auto split: option.splits)

lemma registry_only_shrinks:
  assumes "reachable obsf p" and "query_log p \<noteq> []" and "exec_event obsf e p = Some p'"
  shows "set (registered p') \<subseteq> set (registered p)"
proof -
  have inv: "inv_script p" using reachable_page_inv [OF assms(1)] by (simp add: page_inv_def)
  with assms(2) have st: "script_started p" and rd: "ready p \<noteq> Loading"
    by (auto simp: inv_script_def)
  show ?thesis
  proof (cases e)
    case Render
    with assms(3) show ?thesis
      by (cases "io p") (auto simp: registered_def)
  next
    case Notify
    with assms(3) have "exec_event obsf Notify p = Some p'" by simp
    then obtain ob where io: "io p = Some ob"
      and p': "p' = snd (observer_callback (queued ob) (p\<lparr>io := Some (ob\<lparr>queued := []\<rparr>)\<rparr>))"
      unfolding notify_eq by blast
    then show ?thesis
      by (auto simp: registered_def callback_io_eq)
  qed (use assms(3) st rd in \<open>auto simp: registered_def add_element_def split: if_splits option.splits\<close>)
qed

lemma update_target_intersecting:
  assumes "pending_true ob" and "t \<in> set (targets ob)" and "prev ob t = Some pv"
    and "bx t = Some r" and "snd (obsf (thresholds ob) r rb)"
  shows "\<exists>e \<in> set (queued (update_target obsf rb bx t ob)). target e = t \<and> is_intersecting e"
proof -
  obtain pk pisect where pv: "pv = (pk, pisect)" by (cases pv)
  obtain k where o: "obsf (thresholds ob) r rb = (k, True)"
    using assms(5) by (cases "obsf (thresholds ob) r rb") auto
  show ?thesis
  proof (cases "int k \<noteq> pk \<or> \<not> pisect")
    case True
    then show ?thesis using assms(3,4) o pv by (auto simp: update_target_def)
  next
    case False
    then have "prev ob t = Some (pk, True)" using assms(3) pv by simp
    then obtain e where "e \<in> set (queued ob)" "target e = t" "is_intersecting e"
      using assms(1,2) by (auto simp: pending_true_def)
    moreover have "set (queued ob) \<subseteq> set (queued (update_target obsf rb bx t ob))"
      using update_target_queued [of obsf rb bx t ob] by auto
    ultimately show ?thesis by blast
  qed
qed

lemma fold_update_target_intersecting:
  assumes "pending_true ob" and "t \<in> set ts" and "t \<in> set (targets ob)" and "t \<in> dom (prev ob)"
    and "bx t = Some r" and "snd (obsf (thresholds ob) r rb)"
  shows "\<exists>e \<in> set (queued (fold (update_target obsf rb bx) ts ob)). target e = t \<and> is_intersecting e"
  using assms
proof (induction ts arbitrary: ob)
  case Nil
  then show ?case by simp
next
  case (Cons t' ts)
  let ?ob1 = "update_target obsf rb bx t' ob"
  have p1: "pending_true ?ob1" "t \<in> set (targets ?ob1)" "t \<in> dom (prev ?ob1)"
      "snd (obsf (thresholds ?ob1) r rb)"
    using Cons.prems by (simp_all add: pending_true_update_target)
  show ?case
  proof (cases "t' = t")
    case True
    then obtain pv where "prev ob t = Some pv" using Cons.prems(4) by auto
    with True Cons.prems obtain e where e: "e \<in> set (queued ?ob1)" "target e = t" "is_intersecting e"
      using update_target_intersecting by blast
    obtain new where "queued (fold (update_target obsf rb bx) ts ?ob1) = queued ?ob1 @ new"
      using fold_update_target_queued by blast
    with e show ?thesis by auto
  next
    case False
    with Cons.prems(2) have "t \<in> set ts" by simp
    from Cons.IH [OF p1(1) this p1(2) p1(3) Cons.prems(5) p1(4)] show ?thesis by simp
  qed
qed

lemma reachable_while_reachable: "reachable_while obsf P p \<Longrightarrow> reachable obsf p \<and> P p"
  by (induction rule: reachable_while.induct) (auto intro: reachable.intros)

lemma fold_dispatch_queued:
  "io (fold dispatch fs p) = Some ob' \<Longrightarrow> \<exists>ob. io p = Some ob \<and> queued ob' = queued ob"
proof (induction fs arbitrary: p)
  case Nil
  then show ?case by simp
next
  case (Cons f fs)
  from Cons.IH [of "dispatch f p"] Cons.prems show ?case
    by (auto simp: dispatch_def init_io fold_observe split: script_fn.splits)
qed

lemma exec_event_queued:
  assumes "exec_event obsf e p = Some p'" and "e \<noteq> Render" and "e \<noteq> Notify"
    and "io p' = Some ob'" and "x \<in> set (queued ob')"
  shows "\<exists>ob. io p = Some ob \<and> x \<in> set (queued ob)"
  using assms
  by (cases e) (auto simp: script_main_eq init_io fold_observe add_element_def fire_dcl_def
                     split: if_splits option.splits dest: fold_dispatch_queued)

lemma quiet_step:
  assumes q: "quiet t p" and b: "below obsf t p" and ex: "exec_event obsf e p = Some p'"
  shows "quiet t p'"
proof (cases "e = Render \<or> e = Notify")
  case False
  with ex have "class_adds p' = class_adds p" by (simp add: exec_event_class_adds)
  with q False ex show ?thesis
    by (auto simp: quiet_def revealed_def dest: exec_event_queued)
next
  case True
  then show ?thesis
  proof
    assume R: "e = Render"
    show ?thesis
    proof (cases "io p")
      case None
      with ex R q show ?thesis by (auto simp: quiet_def revealed_def)
    next
      case (Some ob)
      let ?rb = "apply_margin (root_margin ob) (viewport p)"
      obtain new where nq: "queued (update_observations obsf (viewport p) (boxes p) ob) = queued ob @ new"
        and nf: "entries_for obsf ?rb (boxes p) ob (set (targets ob)) new"
        using update_observations_queued by blast
      have "\<forall>x \<in> set new. target x = t \<longrightarrow> \<not> is_intersecting x"
        using nf b Some by (auto simp: entries_for_def below_def boxes_def split: option.splits)
      with ex R q Some nq show ?thesis by (auto simp: quiet_def revealed_def)
    qed
  next
    assume N: "e = Notify"
    with ex have "exec_event obsf Notify p = Some p'" by simp
    then obtain ob where io: "io p = Some ob"
      and p': "p' = snd (observer_callback (queued ob) (p\<lparr>io := Some (ob\<lparr>queued := []\<rparr>)\<rparr>))"
      unfolding notify_eq by blast
    from q io have "\<forall>x \<in> set (queued ob). target x = t \<longrightarrow> \<not> is_intersecting x"
      by (simp add: quiet_def)
    with q show ?thesis
      by (auto simp: quiet_def revealed_def p' callback_class_adds callback_io_eq)
  qed
qed

lemma dispatch_query_log: "\<exists>ys. query_log (dispatch f p) = query_log p @ ys"
  by (cases f) (simp add: dispatch_def)

lemma fold_dispatch_query_log: "\<exists>xs. query_log (fold dispatch fs p) = query_log p @ xs"
proof (induction fs arbitrary: p)
  case Nil
  then show ?case by simp
next
  case (Cons f fs)
  obtain ys where "query_log (dispatch f p) = query_log p @ ys"
    using dispatch_query_log by blast
  moreover obtain xs where "query_log (fold dispatch fs (dispatch f p)) = query_log (dispatch f p) @ xs"
    using Cons.IH by blast
  ultimately show ?case by simp
qed

lemma query_log_prefix: "exec_event obsf e p = Some p' \<Longrightarrow> \<exists>xs. query_log p' = query_log p @ xs"
proof (cases e)
  case Finish_parsing
  then show "exec_event obsf e p = Some p' \<Longrightarrow> ?thesis"
    using fold_dispatch_query_log [of "dcl_listeners p" "p\<lparr>ready := Interactive\<rparr>"]
    by (auto simp: fire_dcl_def split: if_splits)
next
  case Notify
  then show "exec_event obsf e p = Some p' \<Longrightarrow> ?thesis"
    by (auto simp: callback_frame split: option.splits if_splits)
qed (auto simp: script_main_eq add_element_def split: if_splits option.splits)

lemma run_while_reachable_while:
  "reachable_while obsf P p \<Longrightarrow> run_while obsf P evs p = Some p' \<Longrightarrow> reachable_while obsf P p'"
proof (induction evs arbitrary: p)
  case Nil
  then show ?case by simp
next
  case (Cons e evs)
  then show ?case by (auto intro: reachable_while.step split: option.splits if_splits)
qed

subsection \<open>Progress, registration along quiet runs, refinement steps\<close>

text \<open>Whatever the rule for \<open>isIntersecting\<close>, a registered element that the
  rule counts as intersecting is marked and unregistered by the next
  rendering step and notification.\<close>

lemma reveal_on_next_pass:
  assumes "reachable obsf p" and "io p = Some ob" and "t \<in> set (targets ob)"
    and "store p t = Some el"
    and "snd (obsf (thresholds ob) (box el) (apply_margin (root_margin ob) (viewport p)))"
  shows "\<exists>p'. run obsf [Render, Notify] p = Some p' \<and>
              has_class visible_class t p' \<and> t \<notin> set (registered p')"
proof -
  have o: "wf_observer ob" "pending_true ob"
    using reachable_page_inv [OF assms(1)] assms(2) by (simp_all add: page_inv_def inv_obs_def)
  let ?rb = "apply_margin (root_margin ob) (viewport p)"
  let ?ob1 = "update_observations obsf (viewport p) (boxes p) ob"
  let ?p1 = "p\<lparr>io := Some ?ob1\<rparr>"
  have dp: "t \<in> dom (prev ob)" using o(1) assms(3) by (simp add: wf_observer_def)
  have bx: "boxes p t = Some (box el)" using assms(4) by (simp add: boxes_def)
  have "\<exists>e \<in> set (queued (fold (update_target obsf ?rb (boxes p)) (targets ob) ob)).
          target e = t \<and> is_intersecting e"
    by (rule fold_update_target_intersecting [where bx = "boxes p" and obsf = obsf and rb = ?rb,
          OF o(2) assms(3) assms(3) dp bx assms(5)])
  then obtain e where e: "e \<in> set (queued ?ob1)" "target e = t" "is_intersecting e"
    by (auto simp: update_observations_def)
  let ?p' = "snd (observer_callback (queued ?ob1) (?p1\<lparr>io := Some (?ob1\<lparr>queued := []\<rparr>)\<rparr>))"
  have "queued ?ob1 \<noteq> []" using e(1) by auto
  then have run: "run obsf [Render, Notify] p = Some ?p'"
    using assms(2) by simp
  have T: "t \<in> set (revealed_by (queued ?ob1))" using e by force
  have "has_class visible_class t ?p'"
    using T assms(4) by (simp add: has_class_def callback_store mark_visible_def)
  moreover have "t \<notin> set (registered ?p')"
    using T by (simp add: registered_def callback_io_eq)
  ultimately show ?thesis using run by blast
qed

lemma reachable_while_quiet: "reachable_while obsf (below obsf t) p \<Longrightarrow> quiet t p"
proof (induction rule: reachable_while.induct)
  case (start v)
  then show ?case by (simp add: quiet_def revealed_def initial_page_def)
next
  case (step p e p')
  then show ?case using quiet_step reachable_while_reachable by blast
qed

lemma set_registered_init:
  "io p = Some ob \<Longrightarrow> set (registered (init p)) = set (targets ob) \<union> {i. candidate p i}"
  by (auto simp: registered_def init_io fold_observe set_query_selector_all candidate_iff)

text \<open>An element with no intersecting entry queued keeps its registration
  across any event.\<close>

lemma registered_step_quiet:
  assumes "reachable obsf p" and "quiet t p" and "t \<in> set (registered p)"
    and "exec_event obsf e p = Some p'"
  shows "t \<in> set (registered p')"
proof (cases e)
  case Run_script
  have "inv_script p" using reachable_page_inv [OF assms(1)] by (simp add: page_inv_def)
  with assms(3) have "script_started p"
    by (auto simp: inv_script_def registered_def split: option.splits)
  with assms(4) Run_script show ?thesis by simp
next
  case Finish_parsing
  have "inv_script p" using reachable_page_inv [OF assms(1)] by (simp add: page_inv_def)
  then have lst: "dcl_listeners p \<in> {[], [Fn_init]}" by (simp add: inv_script_def)
  from assms(4) Finish_parsing have p': "p' = fire_dcl (p\<lparr>ready := Interactive\<rparr>)"
    by (simp split: if_splits)
  from assms(3) obtain ob where io: "io p = Some ob" and t: "t \<in> set (targets ob)"
    by (cases "io p") (auto simp: registered_def)
  then have "set (registered (init (p\<lparr>ready := Interactive\<rparr>))) = set (targets ob) \<union> {i. candidate p i}"
    by (simp add: set_registered_init candidate_iff)
  with lst assms(3) t show ?thesis
    by (auto simp: p' fire_dcl_cases registered_def)
next
  case Notify
  with assms(4) have "exec_event obsf Notify p = Some p'" by simp
  then obtain ob where io: "io p = Some ob"
    and p': "p' = snd (observer_callback (queued ob) (p\<lparr>io := Some (ob\<lparr>queued := []\<rparr>)\<rparr>))"
    unfolding notify_eq by blast
  from assms(2) io have "\<forall>x \<in> set (queued ob). target x = t \<longrightarrow> \<not> is_intersecting x"
    by (simp add: quiet_def)
  with assms(3) io show ?thesis
    by (auto simp: p' registered_def callback_io_eq)
next
  case Render
  with assms(3,4) show ?thesis by (cases "io p") (auto simp: registered_def)
qed (use assms(3,4) in \<open>auto simp: registered_def add_element_def split: if_splits option.splits\<close>)

lemma run_while_registered:
  "reachable_while obsf (below obsf t) p \<Longrightarrow> run_while obsf (below obsf t) evs p = Some p' \<Longrightarrow>
     t \<in> set (registered p) \<Longrightarrow> t \<in> set (registered p')"
proof (induction evs arbitrary: p)
  case Nil
  then show ?case by simp
next
  case (Cons e evs)
  then obtain p1 where e: "exec_event obsf e p = Some p1" and b: "below obsf t p1"
    and r: "run_while obsf (below obsf t) evs p1 = Some p'"
    by (auto split: option.splits if_splits)
  have "t \<in> set (registered p1)"
    using registered_step_quiet [OF _ reachable_while_quiet [OF Cons.prems(1)] Cons.prems(3) e]
      reachable_while_reachable [OF Cons.prems(1)] by blast
  moreover have "reachable_while obsf (below obsf t) p1"
    using Cons.prems(1) e b by (rule reachable_while.step)
  ultimately show ?case using Cons.IH r by blast
qed

lemma revealed_callback:
  "\<forall>e \<in> set es. target e \<in> dom (store p) \<Longrightarrow>
     revealed (snd (observer_callback es p)) = revealed p \<union> set (revealed_by es)"
  by (auto simp: revealed_def callback_class_adds image_Un image_image)

lemma abs_run_Notify:
  assumes "reachable obsf p" and "exec_event obsf Notify p = Some p'"
  shows "abs_run p' = spec_callback (queued (the (io p))) (abs_run p)"
proof -
  obtain ob where io: "io p = Some ob"
    and p': "p' = snd (observer_callback (queued ob) (p\<lparr>io := Some (ob\<lparr>queued := []\<rparr>)\<rparr>))"
    using assms(2) unfolding notify_eq by blast
  have "\<forall>e \<in> set (queued ob). target e \<in> dom (store p)"
    using reachable_page_inv [OF assms(1)] io by (simp add: page_inv_def inv_obs_def)
  then have "revealed p' = revealed p \<union> set (revealed_by (queued ob))"
    unfolding p' by (subst revealed_callback) (simp_all add: revealed_def)
  moreover have "set (registered p') = set (registered p) - set (revealed_by (queued ob))"
    by (auto simp: p' io registered_def callback_io_eq)
  ultimately show ?thesis
    by (simp add: abs_run_def spec_callback_eq io del: set_map set_filter)
qed

lemma abs_run_Run_script:
  assumes "reachable obsf p" and "exec_event obsf Run_script p = Some p'"
  shows "abs_run p' =
           (if ready p = Loading then abs_run p else spec_register {i. candidate p i} (abs_run p))"
proof -
  from assms(2) have ns: "\<not> script_started p"
    and p': "p' = snd (script_main (p\<lparr>script_started := True\<rparr>))"
    by (auto split: if_splits)
  have "inv_script p" using reachable_page_inv [OF assms(1)] by (simp add: page_inv_def)
  with ns have io: "io p = None" by (simp add: inv_script_def)
  let ?q = "p\<lparr>script_started := True, io := Some script_observer\<rparr>"
  show ?thesis
  proof (cases "ready p = Loading")
    case True
    then show ?thesis
      by (simp add: p' script_main_eq abs_run_def registered_def revealed_def io add_dcl_listener_def)
  next
    case False
    then have "p' = init ?q" by (simp add: p' script_main_eq)
    moreover have "set (registered (init ?q)) = {i. candidate p i}"
      by (simp add: set_registered_init candidate_iff)
    ultimately show ?thesis using False
      by (simp add: abs_run_def spec_register_def registered_def revealed_def io)
  qed
qed

lemma abs_run_Finish_parsing:
  assumes "reachable obsf p" and "exec_event obsf Finish_parsing p = Some p'"
  shows "abs_run p' =
           (if dcl_listeners p = [] then abs_run p else spec_register {i. candidate p i} (abs_run p))"
proof -
  from assms(2) have p': "p' = fire_dcl (p\<lparr>ready := Interactive\<rparr>)"
    by (simp split: if_splits)
  have "inv_script p" using reachable_page_inv [OF assms(1)] by (simp add: page_inv_def)
  then have lst: "dcl_listeners p \<in> {[], [Fn_init]}"
    and st: "dcl_listeners p \<noteq> [] \<longrightarrow> io p \<noteq> None"
    by (auto simp: inv_script_def)
  show ?thesis
  proof (cases "dcl_listeners p = []")
    case True
    then show ?thesis
      by (simp add: p' fire_dcl_def abs_run_def registered_def revealed_def)
  next
    case False
    with st obtain ob where io: "io p = Some ob" by blast
    have "set (registered (init (p\<lparr>ready := Interactive\<rparr>))) = set (targets ob) \<union> {i. candidate p i}"
      using io by (simp add: set_registered_init candidate_iff)
    with False lst io show ?thesis
      by (auto simp: p' fire_dcl_cases abs_run_def spec_register_def registered_def revealed_def)
  qed
qed

lemma registered_update_observations [simp]:
  "registered (p\<lparr>io := map_option (update_observations obsf v bx) (io p)\<rparr>) = registered p"
  by (cases "io p") (simp_all add: registered_def)

lemma abs_run_other:
  assumes "exec_event obsf e p = Some p'" and "e \<notin> {Run_script, Finish_parsing, Notify}"
  shows "abs_run p' = abs_run p"
proof (cases e)
  case Render
  with assms(1) show ?thesis by (auto simp: abs_run_def revealed_def)
qed (use assms in \<open>auto simp: abs_run_def registered_def revealed_def add_element_def
                    split: if_splits option.splits\<close>)

end
