(* ===== verification/Spec2Isabelle.thy ===== *)
theory Spec2Isabelle
  imports Page_Invariant
begin

text \<open>
  \<^bold>\<open>Scroll-triggered animations: a verification of
  \<open>src/assets/js/animations.js\<close>.\<close>

  \<^bold>\<open>The program.\<close>  One immediately invoked function (lines 2--35).  It
  creates an \<open>IntersectionObserver\<close> with threshold 0.15 and root margin
  \<open>'0px 0px -40px 0px'\<close> (lines 5--15), whose callback, for every record
  of a batch that is intersecting, adds the class \<open>is-visible\<close> to the
  record's element and unobserves it (lines 6--11).  Its function \<open>init\<close>
  (lines 17--28) queries \<open>[data-animate]\<close> and \<open>.svg-chart-wrap\<close> and
  observes every result.  If the document is still loading, \<open>init\<close> is
  registered for \<open>DOMContentLoaded\<close>, otherwise it runs at once (lines
  30--34).  The program's partners are two browser APIs, the DOM and the
  Intersection Observer; they are not code of the repository and are
  modelled here, from their standards, as the environment the script runs
  in.

  \<^bold>\<open>Theories.\<close>
  \<^item> \<open>Prelude\<close>: the named collection \<open>page_simps\<close>, the node and token
    types, and \<open>ordset_append\<close> (appending to a duplicate-free list, the way
    the observer's target list, a class list and a listener list grow), with
    its lemmas.
  \<^item> \<open>Geometry\<close>: rectangles of integer CSS pixels, the root margin,
    intersection and the intersection ratio (a rational), the threshold
    index, and the two readings of \<open>isIntersecting\<close>:
    \<open>blink_observation\<close> (a threshold has been crossed: ratio \<open>\<ge>\<close> 0.15 here,
    what Chromium does) and \<open>w3c_observation\<close> (the boxes touch, the literal
    text of the specification).
  \<^item> \<open>Dom\<close>: elements (attributes, class list, layout box),
    \<open>DOMTokenList.add\<close> with its token validation (\<open>SyntaxError\<close>,
    \<open>InvalidCharacterError\<close>), and the fragment of selectors the script uses,
    with a parser and printer.
  \<^item> \<open>Observer\<close>: the \<open>IntersectionObserver\<close> object: the constructor
    (root margin parsing, threshold range check), \<open>observe\<close>,
    \<open>unobserve\<close>, the per-target previous state and the update steps that
    queue entries.
  \<^item> \<open>Page\<close>: the page state (element store, document order,
    \<open>readyState\<close>, \<open>DOMContentLoaded\<close> listeners, viewport, the script's
    \<open>observer\<close> variable, the script element's started flag) and the DOM
    calls of the script; two observable fields record every
    \<open>querySelectorAll\<close> call with its \<open>readyState\<close> and every class
    mutation record.
  \<^item> \<open>Registry\<close>: the abstract contract of the specification (section 4.1): a
    registry and a set of shown elements.
  \<^item> \<open>Animations\<close>: the script itself, each definition mapped to its
    lines: \<open>callback_entry\<close> (lines 6--11), \<open>observer_callback\<close>
    (\<open>entries.forEach\<close>, an exception stopping the loop), \<open>observe_each\<close>
    (the \<open>forEach\<close> of lines 19--21 and 25--27), \<open>init\<close> (lines 17--28),
    \<open>script_main\<close> (the whole function) and the literal strings and options.
    Its lemmas give closed forms of the callback per page field, the
    top level as an equation (\<open>script_main_eq\<close>) and the parse of the two
    selector strings into the selectors \<open>init\<close> uses
    (\<open>script_selectors_parse\<close>); its claims are C4, C6, C9 and C10.
  \<^item> \<open>Browser\<close>: the event loop as a step function \<open>exec_event\<close> on nine
    events (the script runs once, the parser adds elements while loading,
    parsing ends and \<open>DOMContentLoaded\<close> fires, loading ends, other code
    inserts elements, scroll, relayout, a rendering step runs the update
    steps, the notification task runs the callback on the queue), its
    iteration \<open>run\<close>, and the inductive \<open>reachable\<close>.  The reading of
    \<open>isIntersecting\<close> is a parameter.
  \<^item> \<open>Page_Invariant\<close>: the invariant of reachable pages (\<open>page_inv\<close>:
    well-formed elements, an observer whose targets and previous states
    agree, the script's progress as seen in the query log and listeners,
    and that a revealed element is marked and neither registered nor
    queued), proved preserved by each event and so by rule induction; the
    runs constrained by a predicate (\<open>reachable_while\<close>, \<open>run_while\<close>);
    the progress lemma for any reading of \<open>isIntersecting\<close>; and the
    abstraction \<open>abs_run\<close> of a page to the registry contract.
  \<^item> This theory: concrete documents and runs used by the witnesses, and
    the claims about the whole page, C1--C3, C5, C7, C8, C11 and C12.

  \<^bold>\<open>What is shown.\<close>  Registration: \<open>init\<close> registers each candidate exactly
  once (C4); its queries run only after parsing, exactly once (C5).  The
  callback refines the contract (C6), is independent of the order within a
  batch (C10), and a repeated batch changes no element but queues its
  mutation records again (C9).  On every reachable page: revealed elements
  leave the registry for good (C1); a registered element whose box reaches
  the threshold is revealed by the next rendering and notification pass
  (C2); along a run on which an element stays below the threshold it is
  never revealed and keeps its registration (C3); after the reveal no
  further class mutation is queued for the element (C7); and every event is
  a step of the registry contract (C8: the first run of the script or the
  end of parsing registers the candidates, a notification is the abstract
  batch on the queued entries, everything else stutters).  C11 and C12
  document behaviour the specification does not describe: once \<open>init\<close> has
  run the registry never gains an element, so elements inserted later are
  never registered (C11); and under the literal W3C reading of
  \<open>isIntersecting\<close> any element touching the root box is revealed, whatever
  its ratio, so that an element 5\% in view gets the class (C12).

  \<^bold>\<open>Bounds and fuel.\<close>  All operations are total and structurally
  recursive (the callback and \<open>init\<close> run over finite lists, the update
  steps over the finite target list), so no fuel is needed; \<open>run\<close> is
  \<open>None\<close> only when an event cannot happen in a state.  Pixel values are
  unbounded integers (CSS pixels in the layout engine are wide fixed-point
  numbers; no overflow occurs at page sizes), ratios are exact rationals.

  \<^bold>\<open>Not modelled.\<close>  Clipping by ancestors and scroll containers, iframes
  and implicit roots other than the viewport; removal of elements; the
  styling of \<open>.is-visible\<close> (outside \<open>src/\<close>); the absence of
  \<open>IntersectionObserver\<close> (the specification leaves it unspecified); scripts
  run with \<open>defer\<close> or \<open>async\<close> beyond the \<open>readyState\<close> they observe.
\<close>

section \<open>Example documents and runs\<close>

definition demo_elem :: "int \<Rightarrow> element" where
  "demo_elem y = \<lparr>attrs = [(''data-animate'', '''')], class_list = [],
                  box = \<lparr>rect_left = 0, rect_top = y, rect_width = 100, rect_height = 100\<rparr>\<rparr>"

definition demo_viewport :: "int \<Rightarrow> rect" where
  "demo_viewport y = \<lparr>rect_left = 0, rect_top = y, rect_width = 800, rect_height = 600\<rparr>"

text \<open>The scenario of the specification: the script runs while the document
  loads, three marked elements are parsed (none in view: the root box is the
  viewport's rows 0 to 559), parsing ends, and one rendering and notification
  pass runs.\<close>

definition loaded_events :: "event list" where
  "loaded_events =
     [Run_script, Parse_element 1 (demo_elem 3000), Parse_element 2 (demo_elem 1000),
      Parse_element 3 (demo_elem 5000), Finish_parsing, Render, Notify]"

text \<open>Then the user scrolls to 500, which brings 60 of element 2's 100 rows
  into the root box, and the next rendering and notification pass runs.\<close>

definition scrolled_events :: "event list" where
  "scrolled_events = loaded_events @ [Scroll (demo_viewport 500), Render, Notify]"

definition demo_state :: "event list \<Rightarrow> page" where
  "demo_state evs = the (run blink_observation evs (initial_page (demo_viewport 0)))"

text \<open>An element inserted by other code after parsing has finished, in
  view, followed by a rendering pass.\<close>

definition late_events :: "event list" where
  "late_events = [Insert_element 7 (demo_elem 0), Render]"

text \<open>One element whose top five rows (rows 555 to 559) lie in the root box:
  it touches the root box, but covers only 5\% of its area.  The document is
  parsed with the script running first.\<close>

definition thin_events :: "event list" where
  "thin_events = [Run_script, Parse_element 1 (demo_elem 555), Finish_parsing]"

section \<open>Properties of the page\<close>

lemma demo_state_reachable:
  assumes "run blink_observation evs (initial_page (demo_viewport 0)) \<noteq> None"
  shows "reachable blink_observation (demo_state evs)"
proof -
  have "reachable blink_observation (initial_page (demo_viewport 0))"
    by (rule reachable.start) (simp add: demo_viewport_def wf_rect_def)
  with assms show ?thesis
    by (auto simp: demo_state_def intro: run_reachable)
qed

text \<open>C1.  Once an element has been revealed (a \<open>classList.add\<close> of the
  marker has been applied to it) it carries the marker, it is no longer
  registered with the observer, and no entry for it is queued: the registry
  has lost it for good.\<close>

theorem revealed_never_registered:
  assumes "reachable obsf p" and "i \<in> revealed p" and "io p = Some ob"
  shows "i \<notin> set (targets ob) \<and> (\<forall>e \<in> set (queued ob). target e \<noteq> i) \<and> has_class visible_class i p"
proof -
  have "inv_reveal p" using reachable_page_inv [OF assms(1)] by (simp add: page_inv_def)
  with assms(2,3) show ?thesis by (auto simp: inv_reveal_def revealed_def)
qed

theorem revealed_never_registered_witness:
  "reachable blink_observation (demo_state scrolled_events) \<and>
   2 \<in> revealed (demo_state scrolled_events) \<and>
   io (demo_state scrolled_events) = Some (the (io (demo_state scrolled_events))) \<and>
   2 \<notin> set (targets (the (io (demo_state scrolled_events)))) \<and>
   has_class visible_class 2 (demo_state scrolled_events)"
proof -
  have r: "reachable blink_observation (demo_state scrolled_events)"
    by (rule demo_state_reachable) code_simp
  have h1: "2 \<in> revealed (demo_state scrolled_events)" by code_simp
  have "io (demo_state scrolled_events) \<noteq> None" by code_simp
  then have h2: "io (demo_state scrolled_events) = Some (the (io (demo_state scrolled_events)))"
    by auto
  note h = h1 h2
  show ?thesis using revealed_never_registered [OF r h] r h by blast
qed

text \<open>C2.  Progress: when a registered element's box reaches 15\% of its
  area inside the viewport with the bottom 40 pixels cut off, the next
  rendering step and notification mark it and unregister it.\<close>

theorem reveal_progress:
  assumes "reachable blink_observation p" and "io p = Some ob" and "t \<in> set (targets ob)"
    and "store p t = Some el"
    and "intersect_rect (box el) (apply_margin (root_margin script_observer) (viewport p)) \<noteq> None"
    and "15 / 100 \<le> intersection_ratio (box el) (apply_margin (root_margin script_observer) (viewport p))"
  shows "\<exists>p'. run blink_observation [Render, Notify] p = Some p' \<and>
              has_class visible_class t p' \<and> t \<notin> set (registered p')"
proof -
  have "thresholds ob = [15 / 100]" and m: "root_margin ob = root_margin script_observer"
    using reachable_page_inv [OF assms(1)] assms(2) by (simp_all add: page_inv_def inv_obs_def)
  then have "snd (blink_observation (thresholds ob) (box el) (apply_margin (root_margin ob) (viewport p)))"
    using assms(5,6) by (simp add: blink_observation_single)
  then show ?thesis by (rule reveal_on_next_pass [OF assms(1-4)])
qed

theorem reveal_progress_witness:
  "reachable blink_observation (demo_state (loaded_events @ [Scroll (demo_viewport 500)])) \<and>
   (\<exists>p'. run blink_observation [Render, Notify] (demo_state (loaded_events @ [Scroll (demo_viewport 500)])) = Some p' \<and>
         has_class visible_class 2 p' \<and> 2 \<notin> set (registered p'))"
proof -
  let ?p = "demo_state (loaded_events @ [Scroll (demo_viewport 500)])"
  have r: "reachable blink_observation ?p"
    by (rule demo_state_reachable) code_simp
  have "io ?p \<noteq> None" by code_simp
  then have h1: "io ?p = Some (the (io ?p))" by auto
  have h2: "2 \<in> set (targets (the (io ?p)))"
    "store ?p 2 = Some (demo_elem 1000)"
    "intersect_rect (box (demo_elem 1000)) (apply_margin (root_margin script_observer) (viewport ?p)) \<noteq> None"
    "15 / 100 \<le> intersection_ratio (box (demo_elem 1000)) (apply_margin (root_margin script_observer) (viewport ?p))"
    by code_simp+
  show ?thesis using reveal_progress [OF r h1 h2] r by blast
qed

text \<open>C3.  Along a run in which an element's box stays below the threshold
  in every state (as the observer measures it), the element is never
  revealed: no \<open>classList.add\<close> is applied to it and no intersecting entry
  for it is queued; and if it is registered at the start of the run, it is
  still registered at the end.\<close>

theorem below_threshold_never_revealed:
  assumes "reachable_while obsf (below obsf t) p"
    and "run_while obsf (below obsf t) evs p = Some p'"
  shows "t \<notin> revealed p' \<and>
         (\<forall>ob. io p' = Some ob \<longrightarrow> (\<forall>e \<in> set (queued ob). target e = t \<longrightarrow> \<not> is_intersecting e)) \<and>
         (t \<in> set (registered p) \<longrightarrow> t \<in> set (registered p'))"
proof -
  have "quiet t p'" by (rule reachable_while_quiet [OF run_while_reachable_while [OF assms]])
  moreover have "t \<in> set (registered p) \<longrightarrow> t \<in> set (registered p')"
    using run_while_registered [OF assms] by blast
  ultimately show ?thesis by (simp add: quiet_def)
qed

theorem below_threshold_never_revealed_witness:
  "3 \<in> set (registered (the (run_while blink_observation (below blink_observation 3) loaded_events
                              (initial_page (demo_viewport 0))))) \<and>
   3 \<notin> revealed (the (run_while blink_observation (below blink_observation 3)
                       [Scroll (demo_viewport 500), Render, Notify]
                       (the (run_while blink_observation (below blink_observation 3) loaded_events
                              (initial_page (demo_viewport 0)))))) \<and>
   3 \<in> set (registered (the (run_while blink_observation (below blink_observation 3)
                       [Scroll (demo_viewport 500), Render, Notify]
                       (the (run_while blink_observation (below blink_observation 3) loaded_events
                              (initial_page (demo_viewport 0)))))))"
proof -
  let ?P = "below blink_observation 3"
  let ?p = "the (run_while blink_observation ?P loaded_events (initial_page (demo_viewport 0)))"
  let ?tail = "[Scroll (demo_viewport 500), Render, Notify]"
  have s: "reachable_while blink_observation ?P (initial_page (demo_viewport 0))"
    by (rule reachable_while.start) (simp_all add: demo_viewport_def wf_rect_def below_def initial_page_def)
  have "run_while blink_observation ?P loaded_events (initial_page (demo_viewport 0)) \<noteq> None"
    by code_simp
  then have "run_while blink_observation ?P loaded_events (initial_page (demo_viewport 0)) = Some ?p"
    by auto
  from run_while_reachable_while [OF s this]
  have r: "reachable_while blink_observation ?P ?p" .
  have "run_while blink_observation ?P ?tail ?p \<noteq> None" by code_simp
  then have e: "run_while blink_observation ?P ?tail ?p = Some (the (run_while blink_observation ?P ?tail ?p))"
    by auto
  have h: "3 \<in> set (registered ?p)" by code_simp
  show ?thesis using below_threshold_never_revealed [OF r e] h by simp
qed

text \<open>C5.  \<open>init\<close>'s two queries run only once the document has been
  parsed, and exactly once: in every reachable state the query log is empty
  or holds the \<open>[data-animate]\<close> query followed by the
  \<open>.svg-chart-wrap\<close> query, never in the loading state, and it is non-empty
  exactly when the script has started and parsing has finished.\<close>

theorem query_timing:
  assumes "reachable obsf p"
  shows "(\<forall>x \<in> set (query_log p). snd x \<noteq> Loading) \<and>
         (query_log p = [] \<or> (\<exists>r. query_log p = [(sel_data_animate, r), (sel_chart_wrap, r)])) \<and>
         (query_log p \<noteq> [] \<longleftrightarrow> script_started p \<and> ready p \<noteq> Loading)"
proof -
  have "inv_script p" using reachable_page_inv [OF assms(1)] by (simp add: page_inv_def)
  then show ?thesis by (auto simp: inv_script_def)
qed

theorem query_timing_witness:
  "reachable blink_observation (demo_state loaded_events) \<and>
   query_log (demo_state loaded_events) = [(sel_data_animate, Interactive), (sel_chart_wrap, Interactive)]"
proof -
  have r: "reachable blink_observation (demo_state loaded_events)"
    by (rule demo_state_reachable) code_simp
  have "query_log (demo_state loaded_events) = [(sel_data_animate, Interactive), (sel_chart_wrap, Interactive)]"
    by code_simp
  then show ?thesis using query_timing [OF r] r by blast
qed

text \<open>C7.  After an element has been revealed, no later event queues another
  class mutation for it: all \<open>classList.add\<close> calls on an element happen in
  the one notification that revealed it.\<close>

theorem mutations_stop_once_revealed:
  assumes "reachable obsf p" and "i \<in> revealed p" and "exec_event obsf e p = Some p'"
  shows "count (class_adds p') (i, c) = count (class_adds p) (i, c)"
proof (cases "e = Notify")
  case False
  with assms(3) show ?thesis by (simp add: exec_event_class_adds)
next
  case True
  with assms(3) have "exec_event obsf Notify p = Some p'" by simp
  then obtain ob where io: "io p = Some ob"
    and p': "p' = snd (observer_callback (queued ob) (p\<lparr>io := Some (ob\<lparr>queued := []\<rparr>)\<rparr>))"
    unfolding notify_eq by blast
  have "inv_reveal p" using reachable_page_inv [OF assms(1)] by (simp add: page_inv_def)
  with assms(2) io have "\<forall>e \<in> set (queued ob). target e \<noteq> i"
    by (simp add: inv_reveal_def)
  then show ?thesis
    by (auto simp: p' callback_class_adds count_eq_zero_iff)
qed

theorem mutations_stop_once_revealed_witness:
  "reachable blink_observation (demo_state scrolled_events) \<and>
   2 \<in> revealed (demo_state scrolled_events) \<and>
   exec_event blink_observation Render (demo_state scrolled_events) \<noteq> None \<and>
   count (class_adds (the (exec_event blink_observation Render (demo_state scrolled_events))))
     (2, visible_class) = count (class_adds (demo_state scrolled_events)) (2, visible_class)"
proof -
  have r: "reachable blink_observation (demo_state scrolled_events)"
    by (rule demo_state_reachable) code_simp
  have h: "2 \<in> revealed (demo_state scrolled_events)" by code_simp
  have e: "exec_event blink_observation Render (demo_state scrolled_events) =
           Some (the (exec_event blink_observation Render (demo_state scrolled_events)))"
    by simp
  show ?thesis using mutations_stop_once_revealed [OF r h e] r h e by simp
qed

text \<open>C8.  Every event of a reachable page refines the registry contract of
  the specification, in the abstraction where the watched elements are the
  observer's targets and the shown elements those revealed by the script:
  the script's first run registers the candidates when the document is no
  longer loading and otherwise leaves the registry alone; the end of parsing
  registers them when \<open>init\<close> is a \<open>DOMContentLoaded\<close> listener; a
  notification performs the abstract batch on exactly the queued entries;
  every other event leaves the abstraction unchanged.\<close>

theorem page_refines_registry:
  assumes "reachable obsf p" and "exec_event obsf e p = Some p'"
  shows "abs_run p' =
     (case e of
        Run_script \<Rightarrow>
          if ready p = Loading then abs_run p else spec_register {i. candidate p i} (abs_run p)
      | Finish_parsing \<Rightarrow>
          if dcl_listeners p = [] then abs_run p else spec_register {i. candidate p i} (abs_run p)
      | Notify \<Rightarrow> spec_callback (queued (the (io p))) (abs_run p)
      | _ \<Rightarrow> abs_run p)"
proof (cases e)
  case Run_script
  with assms show ?thesis by (simp add: abs_run_Run_script)
next
  case Finish_parsing
  with assms show ?thesis by (simp add: abs_run_Finish_parsing)
next
  case Notify
  with assms show ?thesis by (simp add: abs_run_Notify)
qed (use abs_run_other [OF assms(2)] in simp_all)

theorem page_refines_registry_witness:
  "reachable blink_observation (demo_state (loaded_events @ [Scroll (demo_viewport 500), Render])) \<and>
   abs_run (the (exec_event blink_observation Notify
                   (demo_state (loaded_events @ [Scroll (demo_viewport 500), Render])))) =
   spec_callback (queued (the (io (demo_state (loaded_events @ [Scroll (demo_viewport 500), Render])))))
     (abs_run (demo_state (loaded_events @ [Scroll (demo_viewport 500), Render])))"
proof -
  let ?p = "demo_state (loaded_events @ [Scroll (demo_viewport 500), Render])"
  have r: "reachable blink_observation ?p" by (rule demo_state_reachable) code_simp
  have "exec_event blink_observation Notify ?p \<noteq> None" by code_simp
  then have e: "exec_event blink_observation Notify ?p = Some (the (exec_event blink_observation Notify ?p))"
    by auto
  show ?thesis using page_refines_registry [OF r e] r by simp
qed

text \<open>C11.  Once \<open>init\<close> has run, the observer's registry only loses
  elements: an element that is not registered then (in particular one that
  other code inserts later, even if it matches \<open>[data-animate]\<close>) is never
  registered by any later sequence of events, and so never revealed by the
  script.\<close>

theorem late_elements_never_registered:
  assumes "reachable obsf p" and "query_log p \<noteq> []" and "i \<notin> set (registered p)"
    and "run obsf evs p = Some p'"
  shows "i \<notin> set (registered p')"
  using assms
proof (induction evs arbitrary: p)
  case Nil
  then show ?case by simp
next
  case (Cons e evs)
  then obtain p1 where e: "exec_event obsf e p = Some p1" and r: "run obsf evs p1 = Some p'"
    by (auto split: option.splits)
  have "reachable obsf p1" using Cons.prems(1) e by (rule reachable.step)
  moreover have "query_log p1 \<noteq> []" using query_log_prefix [OF e] Cons.prems(2) by auto
  moreover have "i \<notin> set (registered p1)"
    using registry_only_shrinks [OF Cons.prems(1,2) e] Cons.prems(3) by blast
  ultimately show ?case using Cons.IH r by blast
qed

theorem late_elements_never_registered_witness:
  "reachable blink_observation (demo_state [Run_script, Finish_parsing]) \<and>
   7 \<notin> set (registered (the (run blink_observation late_events (demo_state [Run_script, Finish_parsing])))) \<and>
   candidate (the (run blink_observation late_events (demo_state [Run_script, Finish_parsing]))) 7"
proof -
  have r: "reachable blink_observation (demo_state [Run_script, Finish_parsing])"
    by (rule demo_state_reachable) code_simp
  have q: "query_log (demo_state [Run_script, Finish_parsing]) \<noteq> []" by code_simp
  have n: "7 \<notin> set (registered (demo_state [Run_script, Finish_parsing]))" by code_simp
  have "run blink_observation late_events (demo_state [Run_script, Finish_parsing]) \<noteq> None"
    by code_simp
  then have e: "run blink_observation late_events (demo_state [Run_script, Finish_parsing]) =
      Some (the (run blink_observation late_events (demo_state [Run_script, Finish_parsing])))"
    by auto
  have c: "candidate (the (run blink_observation late_events (demo_state [Run_script, Finish_parsing]))) 7"
    by code_simp
  show ?thesis using late_elements_never_registered [OF r q n e] r c by blast
qed

text \<open>C12.  Under the literal reading of the Intersection Observer
  specification (\<open>isIntersecting\<close> holds whenever the target's box touches
  the root box), a registered element is marked and unregistered by the next
  rendering step and notification as soon as its box touches the root box,
  however small the visible part: the script tests \<open>isIntersecting\<close>, not
  the intersection ratio against its threshold 0.15.  The witness reveals an
  element of which 5\% is in view.\<close>

theorem reveal_progress_literal_reading:
  assumes "reachable w3c_observation p" and "io p = Some ob" and "t \<in> set (targets ob)"
    and "store p t = Some el"
    and "intersect_rect (box el) (apply_margin (root_margin script_observer) (viewport p)) \<noteq> None"
  shows "\<exists>p'. run w3c_observation [Render, Notify] p = Some p' \<and>
              has_class visible_class t p' \<and> t \<notin> set (registered p')"
proof -
  have "root_margin ob = root_margin script_observer"
    using reachable_page_inv [OF assms(1)] assms(2) by (simp add: page_inv_def inv_obs_def)
  then have "snd (w3c_observation (thresholds ob) (box el) (apply_margin (root_margin ob) (viewport p)))"
    using assms(5) by (simp add: w3c_observation_def)
  then show ?thesis by (rule reveal_on_next_pass [OF assms(1-4)])
qed

theorem reveal_progress_literal_reading_witness:
  "intersection_ratio (box (demo_elem 555)) (apply_margin (root_margin script_observer) (demo_viewport 0)) =
     1 / 20 \<and>
   (\<exists>p'. run w3c_observation [Render, Notify]
           (the (run w3c_observation thin_events (initial_page (demo_viewport 0)))) = Some p' \<and>
         has_class visible_class 1 p' \<and> 1 \<notin> set (registered p'))"
proof -
  let ?p = "the (run w3c_observation thin_events (initial_page (demo_viewport 0)))"
  have "reachable w3c_observation (initial_page (demo_viewport 0))"
    by (rule reachable.start) (simp add: demo_viewport_def wf_rect_def)
  moreover have "run w3c_observation thin_events (initial_page (demo_viewport 0)) \<noteq> None"
    by code_simp
  ultimately have r: "reachable w3c_observation ?p" by (auto intro: run_reachable)
  have "io ?p \<noteq> None" by code_simp
  then have h1: "io ?p = Some (the (io ?p))" by auto
  have h2: "1 \<in> set (targets (the (io ?p)))"
    "store ?p 1 = Some (demo_elem 555)"
    "intersect_rect (box (demo_elem 555)) (apply_margin (root_margin script_observer) (viewport ?p)) \<noteq> None"
    by code_simp+
  have "intersection_ratio (box (demo_elem 555)) (apply_margin (root_margin script_observer) (demo_viewport 0)) =
     1 / 20"
    by (simp add: intersection_ratio_def intersect_rect_def demo_elem_def demo_viewport_def apply_margin_def
                  rect_right_def rect_bottom_def rect_area_def Let_def)
  then show ?thesis using reveal_progress_literal_reading [OF r h1 h2] by blast
qed

end
